theory Spec2Isabelle
  imports Complex_Main "HOL-Library.Sublist"
begin

section \<open>JavaScript strings and numbers, as far as the services use them\<close>

text \<open>
  A JavaScript string is a sequence of UTF-16 code units. The model uses \<open>string\<close>, whose
  characters are the code units U+0000 to U+00FF. On that range the white space that
  \<open>String.prototype.trim\<close> strips and that the regular-expression class \<open>\s\<close> matches is
  TAB, LF, VT, FF, CR, SPACE and NBSP; \<open>\d\<close> is the ten ASCII digits and \<open>\w\<close> is
  \<open>[A-Za-z0-9_]\<close> (the patterns of the source carry no flag).
\<close>

definition is_space :: "char \<Rightarrow> bool" where
  "is_space c \<longleftrightarrow>
     c \<in> set [CHR 0x09, CHR 0x0A, CHR 0x0B, CHR 0x0C, CHR 0x0D, CHR 0x20, CHR 0xA0]"

definition is_digit :: "char \<Rightarrow> bool" where
  "is_digit c \<longleftrightarrow> c \<in> set ''0123456789''"

definition is_word :: "char \<Rightarrow> bool" where
  "is_word c \<longleftrightarrow>
     c \<in> set ''ABCDEFGHIJKLMNOPQRSTUVWXYZabcdefghijklmnopqrstuvwxyz0123456789_''"

text \<open>\<open>s.trim()\<close>: white space removed at both ends.\<close>

definition trim :: "string \<Rightarrow> string" where
  "trim s = rev (dropWhile is_space (rev (dropWhile is_space s)))"

text \<open>
  \<open>s.split('\n')\<close>: the pieces between line feeds. The result is never empty:
  \<open>''.split('\n')\<close> is \<open>['']\<close>.
\<close>

fun split_nl :: "string \<Rightarrow> string list" where
  "split_nl [] = [[]]"
| "split_nl (c # cs) =
     (if c = CHR 0x0A then [] # split_nl cs
      else (case split_nl cs of
              [] \<Rightarrow> [[c]]
            | l # ls \<Rightarrow> (c # l) # ls))"

text \<open>\<open>xs.join('\n')\<close>.\<close>

fun join_nl :: "string list \<Rightarrow> string" where
  "join_nl [] = []"
| "join_nl [l] = l"
| "join_nl (l # m # ls) = l @ CHR 0x0A # join_nl (m # ls)"

text \<open>\<open>s.includes(t)\<close>: \<open>t\<close> occurs in \<open>s\<close> at some position.\<close>

fun includes_str :: "string \<Rightarrow> string \<Rightarrow> bool" where
  "includes_str [] t = (t = [])"
| "includes_str (c # cs) t = (prefix t (c # cs) \<or> includes_str cs t)"

text \<open>
  \<open>s.match(/LIT\s*(C+)/)\<close> for a literal \<open>LIT\<close> and a character class \<open>C\<close> that holds no
  white space (\<open>\d\<close> and \<open>\w\<close> in the source), reduced to what the source reads of the
  result: the text of group 1, or \<open>None\<close> for \<open>null\<close>.

  At one start position the match is deterministic. After the literal, the greedy \<open>\s*\<close>
  takes the whole run of white space; giving any of it back would leave \<open>C+\<close> in front of
  a white-space character, where it fails. \<open>C+\<close> is last in the pattern and greedy, so the
  group is the longest run of \<open>C\<close> characters, and the attempt fails when that run is
  empty. \<open>capture_at\<close> is one attempt; \<open>match_group\<close> tries the start positions from left
  to right and returns the first success, as a search without the \<open>g\<close> flag does.
\<close>

definition capture_at :: "string \<Rightarrow> (char \<Rightarrow> bool) \<Rightarrow> string \<Rightarrow> string option" where
  "capture_at lit cls s =
     (if prefix lit s then
        (let g = takeWhile cls (dropWhile is_space (drop (length lit) s))
         in if g = [] then None else Some g)
      else None)"

fun match_group :: "string \<Rightarrow> (char \<Rightarrow> bool) \<Rightarrow> string \<Rightarrow> string option" where
  "match_group lit cls [] = capture_at lit cls []"
| "match_group lit cls (c # cs) =
     (case capture_at lit cls (c # cs) of
        Some g \<Rightarrow> Some g
      | None \<Rightarrow> match_group lit cls cs)"

text \<open>
  A JavaScript number is an IEEE-754 double. The only numbers the services compute are
  the results of \<open>parseInt\<close> on a run of decimal digits, so the model keeps the
  non-negative integral doubles and \<open>Infinity\<close>.

  \<open>bitlen n\<close> is the number of binary digits of \<open>n\<close>. \<open>to_double n\<close> is the double
  nearest to the natural number \<open>n\<close>, ties to the even significand (53 bits): exact below
  \<open>2^53\<close>, \<open>Infinity\<close> once the rounded value reaches \<open>2^1024\<close>.
\<close>

datatype js_number = Finite int | Infinity

fun bitlen :: "nat \<Rightarrow> nat" where
  "bitlen n = (if n = 0 then 0 else Suc (bitlen (n div 2)))"

declare bitlen.simps [simp del]

definition to_double :: "nat \<Rightarrow> js_number" where
  "to_double n =
     (if n < 2 ^ 53 then Finite (int n)
      else
        (let e = bitlen n - 53;
             q = n div 2 ^ e;
             r = n mod 2 ^ e;
             h = 2 ^ (e - 1);
             q' = (if h < r \<or> (r = h \<and> odd q) then q + 1 else q);
             v = q' * 2 ^ e
         in if 2 ^ 1024 \<le> v then Infinity else Finite (int v)))"

definition digit_value :: "char \<Rightarrow> nat" where
  "digit_value c = of_char c - 48"

definition decimal :: "string \<Rightarrow> nat" where
  "decimal ds = foldl (\<lambda>a c. 10 * a + digit_value c) 0 ds"

text \<open>
  \<open>parseInt(ds, 10)\<close> where \<open>ds\<close> is the text of a group \<open>(\d+)\<close>: a non-empty run of ASCII
  digits, so that there is no white space or sign to skip, no character to stop at and
  no \<open>NaN\<close>. The result is the number value of the integer the digits denote. (The
  standard lets an engine read the digits after the twentieth as zeros; the model takes
  the digits as they are.)
\<close>

definition parseInt :: "string \<Rightarrow> js_number" where
  "parseInt ds = to_double (decimal ds)"

section \<open>The data model (types.ts)\<close>

text \<open>
  The interfaces of the source, field by field. Two names are changed: the \<open>content\<close> of a
  \<open>DoctorSearchResult\<close> is \<open>doc_content\<close> and the \<open>id\<close> of a \<open>HistoryItem\<close> is \<open>item_id\<close>. The
  \<open>timestamp\<close>, a count of milliseconds, is a natural number.
\<close>

record GroundingSource =
  title :: string
  uri :: string

text \<open>\<open>MapSource\<close> has the fields of \<open>GroundingSource\<close> and an optional \<open>address\<close>.\<close>

record MapSource = GroundingSource +
  address :: "string option"

record Confidence =
  score :: js_number
  label :: string

record AnalysisResult =
  content :: string
  confidence :: Confidence
  language :: string
  sources :: "GroundingSource list"

record DoctorSearchResult =
  doc_content :: string
  mapSources :: "MapSource list"

record HistoryItem =
  item_id :: string
  symptoms :: string
  timestamp :: nat
  result :: AnalysisResult

section \<open>The model response and the outcome of a call\<close>

text \<open>
  A grounding chunk is untyped in the source (\<open>chunk: any\<close>). The services read its
  optional \<open>web\<close> and \<open>maps\<close> sub-objects and their optional string fields; \<open>None\<close> is a
  field that is absent or \<open>undefined\<close>.
\<close>

datatype web_chunk = Web (web_uri: "string option") (web_title: "string option")

datatype maps_chunk =
  Maps (maps_uri: "string option") (maps_title: "string option")
       (maps_address: "string option")

record chunk =
  web :: "web_chunk option"
  maps :: "maps_chunk option"

text \<open>
  Of the response the services read \<open>response.text\<close> (\<open>response_text\<close> here) and
  \<open>response.candidates?.[0]?.groundingMetadata?.groundingChunks\<close>; either may be
  \<open>undefined\<close>.
\<close>

record response =
  response_text :: "string option"
  groundingChunks :: "chunk list option"

text \<open>
  A thrown \<open>Error\<close> is a value with its message. A call into the SDK either returns or
  throws. Both services first construct the client (\<open>new GoogleGenAI(...)\<close>, before the
  \<open>try\<close> block) and then call \<open>generateContent\<close> inside the \<open>try\<close> block. What the SDK answers
  does not depend on the model: the two outcomes are inputs, and a theorem for all
  outcomes covers every prompt and every request the source builds. An exception raised
  while the response is read inside the \<open>try\<close> block reaches the same \<open>catch\<close> as a failed
  request, so it is counted as \<open>Throws\<close> of \<open>generateContent\<close>.
\<close>

datatype error = Error (message: string)

datatype 'a outcome = Returns 'a | Throws error

record sdk =
  newClient :: "unit outcome"
  generateContent :: "response outcome"

text \<open>A string is truthy when it is present and not empty.\<close>

definition truthy :: "string option \<Rightarrow> bool" where
  "truthy s \<longleftrightarrow> (case s of None \<Rightarrow> False | Some t \<Rightarrow> t \<noteq> [])"

section \<open>analyzeSymptoms (services/geminiService.ts)\<close>

definition no_analysis :: string where
  "no_analysis = ''Unable to generate analysis. Please try again.''"

definition analysis_failed :: string where
  "analysis_failed =
     ''Failed to analyze symptoms. Please check your connection or try a different image.''"

definition default_confidence :: Confidence where
  "default_confidence = \<lparr>score = Finite 0, label = ''Low''\<rparr>"

text \<open>\<open>const fullText = response.text || "Unable to generate analysis. Please try again."\<close>\<close>

definition fullText_of :: "response \<Rightarrow> string" where
  "fullText_of r = (if truthy (response_text r) then the (response_text r) else no_analysis)"

text \<open>
  The confidence parse: from \<open>fullText\<close> to \<open>confidence\<close> and \<open>content\<close>. \<open>lines[0]\<close> exists
  because \<open>split\<close> never returns an empty array. The inner \<open>try\<close> has nothing to catch:
  \<open>match\<close> and \<open>parseInt\<close> do not throw on strings.
\<close>

definition parse_confidence :: "string \<Rightarrow> Confidence \<times> string" where
  "parse_confidence fullText =
     (let lines = split_nl fullText;
          firstLine = trim (hd lines)
      in if includes_str firstLine ''CONFIDENCE_SCORE:'' then
           (case match_group ''CONFIDENCE_SCORE:'' is_digit firstLine of
              None \<Rightarrow> (default_confidence, fullText)
            | Some scoreMatch \<Rightarrow>
                (case match_group ''CONFIDENCE_LABEL:'' is_word firstLine of
                   None \<Rightarrow> (default_confidence, fullText)
                 | Some labelMatch \<Rightarrow>
                     (\<lparr>score = parseInt scoreMatch, label = labelMatch\<rparr>,
                      trim (join_nl (drop 1 lines)))))
         else (default_confidence, fullText))"

text \<open>The \<open>forEach\<close> over the grounding chunks pushes one source per qualifying chunk.\<close>

definition web_ok :: "chunk \<Rightarrow> bool" where
  "web_ok c \<longleftrightarrow>
     (case web c of None \<Rightarrow> False | Some w \<Rightarrow> truthy (web_uri w) \<and> truthy (web_title w))"

definition web_source :: "chunk \<Rightarrow> GroundingSource option" where
  "web_source c =
     (if web_ok c
      then Some \<lparr>title = the (web_title (the (web c))), uri = the (web_uri (the (web c)))\<rparr>
      else None)"

definition push_source :: "GroundingSource list \<Rightarrow> chunk \<Rightarrow> GroundingSource list" where
  "push_source acc c = (case web_source c of None \<Rightarrow> acc | Some s \<Rightarrow> acc @ [s])"

definition extract_sources :: "chunk list option \<Rightarrow> GroundingSource list" where
  "extract_sources gc = (case gc of None \<Rightarrow> [] | Some cs \<Rightarrow> foldl push_source [] cs)"

definition analyzeSymptoms :: "sdk \<Rightarrow> string \<Rightarrow> error + AnalysisResult" where
  "analyzeSymptoms api lang =
     (case newClient api of
        Throws e \<Rightarrow> Inl e
      | Returns _ \<Rightarrow>
          (case generateContent api of
             Throws e \<Rightarrow> Inl (Error analysis_failed)
           | Returns r \<Rightarrow>
               (let (conf, body) = parse_confidence (fullText_of r)
                in Inr \<lparr>content = body, confidence = conf, language = lang,
                        sources = extract_sources (groundingChunks r)\<rparr>)))"

section \<open>findNearbyDoctors (services/geminiService.ts)\<close>

text \<open>
  The repository holds two copies of the service file. They agree on \<open>analyzeSymptoms\<close>
  up to the prompt and the model name, and on \<open>findNearbyDoctors\<close> up to the prompt and
  the wording of the error message.
\<close>

datatype service_file = Part000 | Part001

definition locate_failed :: "service_file \<Rightarrow> string" where
  "locate_failed f =
     (case f of
        Part000 \<Rightarrow>
          ''Failed to locate nearby doctors. Please ensure location services are enabled in your browser.''
      | Part001 \<Rightarrow>
          ''Failed to locate nearby doctors. Please ensure location services are enabled.'')"

definition no_doctor_info :: string where
  "no_doctor_info = ''Could not find specific doctor information.''"

definition maps_ok :: "chunk \<Rightarrow> bool" where
  "maps_ok c \<longleftrightarrow>
     (case maps c of None \<Rightarrow> False | Some m \<Rightarrow> truthy (maps_uri m) \<and> truthy (maps_title m))"

text \<open>
  The \<open>maps\<close> branch copies \<open>chunk.maps.address\<close>, present or not; the \<open>web\<close> branch builds
  an object without an \<open>address\<close>.
\<close>

definition map_source :: "chunk \<Rightarrow> MapSource option" where
  "map_source c =
     (if maps_ok c
      then Some \<lparr>title = the (maps_title (the (maps c))), uri = the (maps_uri (the (maps c))),
                 address = maps_address (the (maps c))\<rparr>
      else if web_ok c
      then Some \<lparr>title = the (web_title (the (web c))), uri = the (web_uri (the (web c))),
                 address = None\<rparr>
      else None)"

definition push_map_source :: "MapSource list \<Rightarrow> chunk \<Rightarrow> MapSource list" where
  "push_map_source acc c = (case map_source c of None \<Rightarrow> acc | Some s \<Rightarrow> acc @ [s])"

definition extract_map_sources :: "chunk list option \<Rightarrow> MapSource list" where
  "extract_map_sources gc =
     (case gc of None \<Rightarrow> [] | Some cs \<Rightarrow> foldl push_map_source [] cs)"

definition findNearbyDoctors :: "service_file \<Rightarrow> sdk \<Rightarrow> error + DoctorSearchResult" where
  "findNearbyDoctors f api =
     (case newClient api of
        Throws e \<Rightarrow> Inl e
      | Returns _ \<Rightarrow>
          (case generateContent api of
             Throws e \<Rightarrow> Inl (Error (locate_failed f))
           | Returns r \<Rightarrow>
               Inr \<lparr>doc_content =
                      (if truthy (response_text r) then the (response_text r)
                       else no_doctor_info),
                    mapSources = extract_map_sources (groundingChunks r)\<rparr>))"

section \<open>handleFindDoctors (components/DoctorFinder.tsx)\<close>

text \<open>
  The browser either has no \<open>navigator.geolocation\<close>, or \<open>getCurrentPosition\<close> calls the
  error callback with an error code, or it calls the success callback with a position
  (latitude and longitude). The \<open>symptoms\<close> and the position go into the request only, so
  they do not show in the outcome of \<open>findNearbyDoctors\<close>.
\<close>

datatype geolocation = NoGeolocation | GeoFails nat | GeoPosition real real

record finder_state =
  loading :: bool
  finder_result :: "DoctorSearchResult option"
  finder_error :: "string option"

definition not_supported :: string where
  "not_supported = ''Geolocation is not supported by your browser''"

definition permission_denied :: string where
  "permission_denied = ''Location permission denied. Please allow access.''"

definition position_unavailable :: string where
  "position_unavailable = ''Location unavailable. Please check your connection.''"

definition timed_out :: string where
  "timed_out = ''Location request timed out.''"

definition unable_to_retrieve :: string where
  "unable_to_retrieve = ''Unable to retrieve your location.''"

definition find_failed :: string where
  "find_failed = ''Failed to find doctors nearby.''"

definition geo_message :: "nat \<Rightarrow> string" where
  "geo_message code =
     (if code = 1 then permission_denied
      else if code = 2 then position_unavailable
      else if code = 3 then timed_out
      else unable_to_retrieve)"

text \<open>\<open>err.message || fallback\<close>\<close>

definition message_or :: "error \<Rightarrow> string \<Rightarrow> string" where
  "message_or err fallback = (if message err = [] then fallback else message err)"

definition handleFindDoctors ::
  "service_file \<Rightarrow> geolocation \<Rightarrow> sdk \<Rightarrow> finder_state \<Rightarrow> finder_state" where
  "handleFindDoctors f geo api st =
     (let st1 = st\<lparr>loading := True, finder_error := None\<rparr>
      in case geo of
           NoGeolocation \<Rightarrow> st1\<lparr>finder_error := Some not_supported, loading := False\<rparr>
         | GeoFails code \<Rightarrow> st1\<lparr>finder_error := Some (geo_message code), loading := False\<rparr>
         | GeoPosition latitude longitude \<Rightarrow>
             (case findNearbyDoctors f api of
                Inr data \<Rightarrow> st1\<lparr>finder_result := Some data, loading := False\<rparr>
              | Inl err \<Rightarrow>
                  st1\<lparr>finder_error := Some (message_or err find_failed), loading := False\<rparr>))"

section \<open>The App component (App.tsx)\<close>

text \<open>
  The component state: \<open>symptoms\<close> (\<open>form_symptoms\<close> here), \<open>isAnalyzing\<close>, \<open>result\<close>
  (\<open>app_result\<close>), \<open>error\<close> (\<open>app_error\<close>), \<open>history\<close>, \<open>selectedLanguage\<close> and
  \<open>selectedImage\<close>. \<open>stored_history\<close> is the entry \<open>healthlens_history\<close> of \<open>localStorage\<close>: the
  list whose JSON text it holds, or \<open>None\<close> when the key is absent.
\<close>

record app_state =
  form_symptoms :: string
  isAnalyzing :: bool
  app_result :: "AnalysisResult option"
  app_error :: "string option"
  history :: "HistoryItem list"
  selectedLanguage :: string
  selectedImage :: "string option"
  stored_history :: "HistoryItem list option"

text \<open>
  The state of the first render (the arguments of \<open>useState\<close>), over a given content of
  the storage, and the effect that runs on mount: when the key is present, its list
  becomes the history. A text that \<open>JSON.parse\<close> rejects leaves the history as it is, like
  an absent key.
\<close>

definition initial_state :: "HistoryItem list option \<Rightarrow> app_state" where
  "initial_state stored =
     \<lparr>form_symptoms = [], isAnalyzing = False, app_result = None, app_error = None,
      history = [], selectedLanguage = ''English'', selectedImage = None,
      stored_history = stored\<rparr>"

definition loadHistory :: "app_state \<Rightarrow> app_state" where
  "loadHistory st =
     (case stored_history st of None \<Rightarrow> st | Some saved \<Rightarrow> st\<lparr>history := saved\<rparr>)"

definition mount :: "HistoryItem list option \<Rightarrow> app_state" where
  "mount stored = loadHistory (initial_state stored)"

text \<open>
  What one run of \<open>handleAnalyze\<close> takes from outside: the SDK's answers, the value of
  \<open>crypto.randomUUID()\<close>, the value of \<open>Date.now()\<close>, and whether
  \<open>localStorage.setItem\<close> returns or throws.
\<close>

record analyze_env =
  env_sdk :: sdk
  uuid :: string
  now :: nat
  setItem :: "unit outcome"

text \<open>\<open>!symptoms.trim() && !selectedImage\<close>\<close>

definition blank_form :: "app_state \<Rightarrow> bool" where
  "blank_form st \<longleftrightarrow> trim (form_symptoms st) = [] \<and> \<not> truthy (selectedImage st)"

definition newHistoryItem :: "analyze_env \<Rightarrow> app_state \<Rightarrow> AnalysisResult \<Rightarrow> HistoryItem" where
  "newHistoryItem env st data =
     \<lparr>item_id = uuid env,
      symptoms =
        (if form_symptoms st \<noteq> [] then form_symptoms st
         else if truthy (selectedImage st) then ''[Image Scan Analysis]'' else []),
      timestamp = now env,
      result = data\<rparr>"

definition handleAnalyze :: "analyze_env \<Rightarrow> app_state \<Rightarrow> app_state" where
  "handleAnalyze env st =
     (if blank_form st then st
      else
        (let st1 = st\<lparr>isAnalyzing := True, app_error := None, app_result := None\<rparr>
         in case analyzeSymptoms (env_sdk env) (selectedLanguage st) of
              Inl err \<Rightarrow>
                st1\<lparr>app_error := Some (message_or err ''Something went wrong.''),
                    isAnalyzing := False\<rparr>
            | Inr data \<Rightarrow>
                (let updatedHistory = take 10 (newHistoryItem env st data # history st);
                     st2 = st1\<lparr>app_result := Some data, history := updatedHistory\<rparr>
                 in case setItem env of
                      Returns _ \<Rightarrow>
                        st2\<lparr>stored_history := Some updatedHistory, isAnalyzing := False\<rparr>
                    | Throws err \<Rightarrow>
                        st2\<lparr>app_error := Some (message_or err ''Something went wrong.''),
                            isAnalyzing := False\<rparr>)))"

definition clearHistory :: "app_state \<Rightarrow> app_state" where
  "clearHistory st = st\<lparr>history := [], stored_history := None\<rparr>"

text \<open>
  What the user can do to the state: edit the form, submit it, clear the history, load
  the page again. The events of a run follow one another: a submission has finished, and
  the component has rendered again, before the next event reads the state.
\<close>

datatype event =
  SetSymptoms string
| SetImage "string option"
| SetLanguage string
| Analyze analyze_env
| ClearHistory
| Reload

fun step :: "app_state \<Rightarrow> event \<Rightarrow> app_state" where
  "step st (SetSymptoms s) = st\<lparr>form_symptoms := s\<rparr>"
| "step st (SetImage i) = st\<lparr>selectedImage := i\<rparr>"
| "step st (SetLanguage l) = st\<lparr>selectedLanguage := l\<rparr>"
| "step st (Analyze env) = handleAnalyze env st"
| "step st ClearHistory = clearHistory st"
| "step st Reload = mount (stored_history st)"

definition run :: "app_state \<Rightarrow> event list \<Rightarrow> app_state" where
  "run st evs = foldl step st evs"

section \<open>The vocabulary of the specification\<close>

text \<open>The first line of a text, and the text after its first line feed.\<close>

definition first_line :: "string \<Rightarrow> string" where
  "first_line s = takeWhile (\<lambda>c. c \<noteq> CHR 0x0A) s"

definition after_first_line :: "string \<Rightarrow> string" where
  "after_first_line s = drop 1 (dropWhile (\<lambda>c. c \<noteq> CHR 0x0A) s)"

text \<open>
  The line \<open>CONFIDENCE_SCORE: <int> | CONFIDENCE_LABEL: <word>\<close> for a run of digits \<open>ds\<close> and a
  word \<open>w\<close>.
\<close>

definition strict_line :: "string \<Rightarrow> string \<Rightarrow> string" where
  "strict_line ds w = ''CONFIDENCE_SCORE: '' @ ds @ '' | CONFIDENCE_LABEL: '' @ w"

text \<open>
  A line holds a marker \<open>lit\<close> followed by a character of class \<open>cls\<close>, with nothing but
  white space between them.
\<close>

definition has_marker :: "string \<Rightarrow> (char \<Rightarrow> bool) \<Rightarrow> string \<Rightarrow> bool" where
  "has_marker lit cls s \<longleftrightarrow>
     (\<exists>p ws c r. s = p @ lit @ ws @ c # r \<and> (\<forall>x\<in>set ws. is_space x) \<and> cls c)"

text \<open>
  After a marker: optional white space and then a character of class \<open>cls\<close>.
\<close>

definition follows :: "(char \<Rightarrow> bool) \<Rightarrow> string \<Rightarrow> bool" where
  "follows cls t \<longleftrightarrow> (\<exists>ws c r. t = ws @ c # r \<and> (\<forall>x\<in>set ws. is_space x) \<and> cls c)"

text \<open>
  The group that a search for \<open>lit\<close>, optional white space and a run of \<open>cls\<close> characters
  captures in \<open>s\<close>: \<open>g\<close> is the longest run of \<open>cls\<close> characters that stands, after optional
  white space, behind the first occurrence of \<open>lit\<close> that is followed in this way.
\<close>

definition captured :: "string \<Rightarrow> (char \<Rightarrow> bool) \<Rightarrow> string \<Rightarrow> string \<Rightarrow> bool" where
  "captured lit cls s g \<longleftrightarrow>
     (\<exists>p ws rest.
        s = p @ lit @ ws @ g @ rest \<and> (\<forall>x\<in>set ws. is_space x)
        \<and> g \<noteq> [] \<and> (\<forall>c\<in>set g. cls c) \<and> (rest = [] \<or> \<not> cls (hd rest))
        \<and> (\<forall>p' t. s = p' @ lit @ t \<and> length p' < length p \<longrightarrow> \<not> follows cls t))"

text \<open>The storage holds no list of more than 10 entries.\<close>

definition stored_bounded :: "app_state \<Rightarrow> bool" where
  "stored_bounded st \<longleftrightarrow>
     (case stored_history st of None \<Rightarrow> True | Some saved \<Rightarrow> length saved \<le> 10)"

text \<open>
  A run of events in which every submission is a successful analysis and the history is
  neither cleared nor loaded again; the environments of its submissions, in order.
\<close>

definition succeeds :: "analyze_env \<Rightarrow> app_state \<Rightarrow> bool" where
  "succeeds env st \<longleftrightarrow>
     \<not> blank_form st \<and> \<not> isl (analyzeSymptoms (env_sdk env) (selectedLanguage st))"

fun all_succeed :: "app_state \<Rightarrow> event list \<Rightarrow> bool" where
  "all_succeed st [] = True"
| "all_succeed st (Analyze env # evs) =
     (succeeds env st \<and> all_succeed (handleAnalyze env st) evs)"
| "all_succeed st (ClearHistory # evs) = False"
| "all_succeed st (Reload # evs) = False"
| "all_succeed st (e # evs) = all_succeed (step st e) evs"

fun analyses :: "event list \<Rightarrow> analyze_env list" where
  "analyses [] = []"
| "analyses (Analyze env # evs) = env # analyses evs"
| "analyses (e # evs) = analyses evs"

section \<open>An example session\<close>

text \<open>
  A filled form and eleven submissions that differ in the \<open>id\<close> they are given.
\<close>

definition example_state :: app_state where
  "example_state =
     \<lparr>form_symptoms = ''cough'', isAnalyzing = False, app_result = None, app_error = None,
      history = [], selectedLanguage = ''English'', selectedImage = None,
      stored_history = None\<rparr>"

definition example_submission :: "string \<Rightarrow> event" where
  "example_submission i =
     Analyze \<lparr>env_sdk =
                \<lparr>newClient = Returns (),
                 generateContent = Returns \<lparr>response_text = Some ''Rest.'', groundingChunks = None\<rparr>\<rparr>,
              uuid = i, now = 0, setItem = Returns ()\<rparr>"

definition example_run :: "event list" where
  "example_run =
     map example_submission
       [''a'', ''b'', ''c'', ''d'', ''e'', ''f'', ''g'', ''h'', ''i'', ''j'', ''k'']"

section \<open>Lines, trimming and the two patterns\<close>

lemma split_nl_nonempty: "split_nl s \<noteq> []"
  by (induction s) (auto split: list.splits)

lemma split_nl_no_nl: "CHR 0x0A \<notin> set l \<Longrightarrow> split_nl l = [l]"
  by (induction l) auto

lemma split_nl_append_nl:
  "CHR 0x0A \<notin> set l \<Longrightarrow> split_nl (l @ CHR 0x0A # rest) = l # split_nl rest"
  by (induction l) auto

lemma takeWhile_no_nl: "CHR 0x0A \<notin> set s \<Longrightarrow> takeWhile (\<lambda>c. c \<noteq> CHR 0x0A) s = s"
  by (induction s) auto

lemma dropWhile_no_nl: "CHR 0x0A \<notin> set s \<Longrightarrow> dropWhile (\<lambda>c. c \<noteq> CHR 0x0A) s = []"
  by (induction s) auto

lemma split_nl_decompose:
  "split_nl s = first_line s # (if CHR 0x0A \<in> set s then split_nl (after_first_line s) else [])"
proof -
  let ?l = "takeWhile (\<lambda>c. c \<noteq> CHR 0x0A) s" and ?d = "dropWhile (\<lambda>c. c \<noteq> CHR 0x0A) s"
  have l: "CHR 0x0A \<notin> set ?l" by (auto dest: set_takeWhileD)
  have s: "s = ?l @ ?d" by simp
  show ?thesis
  proof (cases "CHR 0x0A \<in> set s")
    case False
    then show ?thesis by (simp add: first_line_def split_nl_no_nl takeWhile_no_nl)
  next
    case True
    then have "?d \<noteq> []" by (auto simp: dropWhile_eq_Nil_conv)
    then obtain x rest where d: "?d = x # rest" by (cases ?d) auto
    have "x = CHR 0x0A" using hd_dropWhile[of "\<lambda>c. c \<noteq> CHR 0x0A" s] d by auto
    with d have d': "?d = CHR 0x0A # rest" by simp
    have "split_nl s = split_nl (?l @ CHR 0x0A # rest)" using s d' by metis
    also have "\<dots> = ?l # split_nl rest" using l by (rule split_nl_append_nl)
    finally show ?thesis using True d' by (simp add: first_line_def after_first_line_def)
  qed
qed

lemma hd_split_nl: "hd (split_nl s) = first_line s"
  by (subst split_nl_decompose) simp

lemma join_nl_Cons_Cons: "join_nl ((c # l) # ls) = c # join_nl (l # ls)"
  by (cases ls) auto

lemma join_split_nl: "join_nl (split_nl s) = s"
proof (induction s)
  case Nil
  show ?case by simp
next
  case (Cons c cs)
  obtain l ls where sp: "split_nl cs = l # ls"
    using split_nl_nonempty[of cs] by (cases "split_nl cs") auto
  show ?case using Cons sp by (auto simp: join_nl_Cons_Cons)
qed

lemma join_drop_split_nl: "join_nl (drop 1 (split_nl s)) = after_first_line s"
proof (cases "CHR 0x0A \<in> set s")
  case True
  have "drop 1 (split_nl s) = split_nl (after_first_line s)"
    by (subst split_nl_decompose) (simp add: True)
  then show ?thesis by (simp add: join_split_nl)
next
  case False
  have "drop 1 (split_nl s) = []"
    by (subst split_nl_decompose) (simp add: False)
  moreover have "after_first_line s = []"
    using False by (simp add: after_first_line_def dropWhile_no_nl)
  ultimately show ?thesis by simp
qed

lemma includes_str_iff: "includes_str s t \<longleftrightarrow> (\<exists>p r. s = p @ t @ r)"
proof (induction s)
  case Nil
  show ?case by auto
next
  case (Cons c cs)
  show ?case
  proof
    assume "includes_str (c # cs) t"
    then consider "prefix t (c # cs)" | "includes_str cs t" by auto
    then show "\<exists>p r. c # cs = p @ t @ r"
    proof cases
      case 1
      then obtain r where "c # cs = t @ r" by (auto simp: prefix_def)
      then have "c # cs = [] @ t @ r" by simp
      then show ?thesis by blast
    next
      case 2
      with Cons obtain p r where "cs = p @ t @ r" by auto
      then have "c # cs = (c # p) @ t @ r" by simp
      then show ?thesis by blast
    qed
  next
    assume "\<exists>p r. c # cs = p @ t @ r"
    then obtain p r where e: "c # cs = p @ t @ r" by auto
    show "includes_str (c # cs) t"
    proof (cases p)
      case Nil
      with e have "prefix t (c # cs)" by (simp add: prefix_def)
      then show ?thesis by simp
    next
      case (Cons a p')
      with e have "cs = p' @ t @ r" by simp
      with Cons.IH have "includes_str cs t" by blast
      then show ?thesis by simp
    qed
  qed
qed

lemma dropWhile_keep:
  "m \<noteq> [] \<Longrightarrow> \<not> P (hd m) \<Longrightarrow> dropWhile P (a @ m @ b) = dropWhile P a @ m @ b"
  by (induction a) (auto simp: neq_Nil_conv)

lemma trim_keep:
  assumes "m \<noteq> []" "\<not> is_space (hd m)" "\<not> is_space (last m)"
  shows "trim (a @ m @ b) = dropWhile is_space a @ m @ rev (dropWhile is_space (rev b))"
proof -
  have 1: "dropWhile is_space (a @ m @ b) = dropWhile is_space a @ m @ b"
    using assms by (simp add: dropWhile_keep)
  have 2: "rev (dropWhile is_space a @ m @ b) = rev b @ rev m @ rev (dropWhile is_space a)"
    by simp
  have 3: "dropWhile is_space (rev b @ rev m @ rev (dropWhile is_space a))
            = dropWhile is_space (rev b) @ rev m @ rev (dropWhile is_space a)"
    using assms by (intro dropWhile_keep) (simp_all add: hd_rev)
  show ?thesis unfolding trim_def 1 2 3 by simp
qed

lemma trim_fixed:
  "m \<noteq> [] \<Longrightarrow> \<not> is_space (hd m) \<Longrightarrow> \<not> is_space (last m) \<Longrightarrow> trim m = m"
  using trim_keep[of m "[]" "[]"] by simp

lemma trim_part: "\<exists>a b. s = a @ trim s @ b"
proof -
  let ?d = "dropWhile is_space s"
  have "s = takeWhile is_space s @ ?d" by simp
  moreover have "rev ?d = takeWhile is_space (rev ?d) @ dropWhile is_space (rev ?d)" by simp
  then have "?d = trim s @ rev (takeWhile is_space (rev ?d))"
    unfolding trim_def by (metis rev_append rev_rev_ident)
  ultimately have "s = takeWhile is_space s @ trim s @ rev (takeWhile is_space (rev ?d))"
    by simp
  then show ?thesis by blast
qed

lemma digit_not_space: "is_digit c \<Longrightarrow> \<not> is_space c"
  by (auto simp: is_digit_def is_space_def)

lemma word_not_space: "is_word c \<Longrightarrow> \<not> is_space c"
  by (auto simp: is_word_def is_space_def)

lemma hd_digit_not_space: "ds \<noteq> [] \<Longrightarrow> \<forall>c\<in>set ds. is_digit c \<Longrightarrow> \<not> is_space (hd ds)"
  by (simp add: digit_not_space)

lemma hd_word_not_space: "w \<noteq> [] \<Longrightarrow> \<forall>c\<in>set w. is_word c \<Longrightarrow> \<not> is_space (hd w)"
  by (simp add: word_not_space)

lemma capture_at_Some:
  "capture_at lit cls s = Some g \<Longrightarrow> g \<noteq> [] \<and> (\<forall>c\<in>set g. cls c)"
  by (auto simp: capture_at_def Let_def split: if_splits dest: set_takeWhileD)

lemma match_group_Some:
  "match_group lit cls s = Some g \<Longrightarrow> g \<noteq> [] \<and> (\<forall>c\<in>set g. cls c)"
proof (induction s)
  case Nil
  then show ?case using capture_at_Some[of lit cls "[]" g] by simp
next
  case (Cons a s)
  then show ?case using capture_at_Some[of lit cls "a # s" g]
    by (auto split: option.splits)
qed

lemma capture_at_match_group:
  "capture_at lit cls s = Some g \<Longrightarrow> match_group lit cls s = Some g"
  by (cases s) auto

lemma capture_at_exact:
  assumes "\<forall>c\<in>set ws. is_space c" "\<forall>c\<in>set g. cls c" "g \<noteq> []" "\<not> is_space (hd g)"
    and "t = [] \<or> \<not> cls (hd t)"
  shows "capture_at lit cls (lit @ ws @ g @ t) = Some g"
proof -
  have "dropWhile is_space (ws @ g @ t) = g @ t"
    using assms(1,3,4) by (cases g) (auto simp: dropWhile_append)
  moreover have "takeWhile cls (g @ t) = g"
    using assms(2,5) by (cases t) (auto simp: takeWhile_append)
  ultimately show ?thesis using assms(3) by (simp add: capture_at_def)
qed

lemma capture_at_has_marker:
  assumes "capture_at lit cls s = Some g"
  shows "has_marker lit cls s"
proof -
  from assms have p: "prefix lit s" by (auto simp: capture_at_def split: if_splits)
  then obtain t where s: "s = lit @ t" by (auto simp: prefix_def)
  let ?d = "dropWhile is_space t"
  from assms s have "takeWhile cls ?d \<noteq> []"
    by (auto simp: capture_at_def Let_def split: if_splits)
  then obtain c r where d: "?d = c # r" and c: "cls c"
    by (cases ?d) (auto split: if_splits)
  have "t = takeWhile is_space t @ ?d" by simp
  with s d have "s = [] @ lit @ takeWhile is_space t @ c # r" by simp
  moreover have "\<forall>x\<in>set (takeWhile is_space t). is_space x" by (auto dest: set_takeWhileD)
  ultimately show ?thesis using c unfolding has_marker_def by blast
qed

lemma has_marker_Cons: "has_marker lit cls s \<Longrightarrow> has_marker lit cls (a # s)"
proof -
  assume "has_marker lit cls s"
  then obtain p ws c r where "s = p @ lit @ ws @ c # r" "\<forall>x\<in>set ws. is_space x" "cls c"
    unfolding has_marker_def by blast
  then have "a # s = (a # p) @ lit @ ws @ c # r" by simp
  with \<open>\<forall>x\<in>set ws. is_space x\<close> \<open>cls c\<close> show ?thesis unfolding has_marker_def by blast
qed

lemma match_group_has_marker:
  "match_group lit cls s = Some g \<Longrightarrow> has_marker lit cls s"
proof (induction s)
  case Nil
  then show ?case by (simp add: capture_at_has_marker)
next
  case (Cons a s)
  then show ?case
    by (auto split: option.splits intro: capture_at_has_marker has_marker_Cons)
qed

lemma has_marker_match_group:
  assumes ns: "\<And>c. cls c \<Longrightarrow> \<not> is_space c"
    and hm: "has_marker lit cls s"
  shows "\<exists>g. match_group lit cls s = Some g"
proof -
  from hm obtain p ws c r where s: "s = p @ lit @ ws @ c # r"
    and ws: "\<forall>x\<in>set ws. is_space x" and c: "cls c"
    unfolding has_marker_def by blast
  have "dropWhile is_space (ws @ c # r) = c # r"
    using ws ns[OF c] by (simp add: dropWhile_append)
  then have "\<exists>g. capture_at lit cls (lit @ ws @ c # r) = Some g"
    using c by (simp add: capture_at_def)
  then have base: "\<exists>g. match_group lit cls (lit @ ws @ c # r) = Some g"
    by (auto dest: capture_at_match_group)
  have "\<exists>g. match_group lit cls (p @ lit @ ws @ c # r) = Some g"
    using base by (induction p) (auto split: option.splits)
  with s show ?thesis by simp
qed

lemma no_match_no_marker:
  assumes "\<And>c. cls c \<Longrightarrow> \<not> is_space c" and "match_group lit cls s = None"
  shows "\<not> has_marker lit cls s"
proof
  assume "has_marker lit cls s"
  with assms(1) have "\<exists>g. match_group lit cls s = Some g"
    by (rule has_marker_match_group)
  with assms(2) show False by simp
qed

lemma has_marker_trim:
  assumes ns: "\<And>c. cls c \<Longrightarrow> \<not> is_space c" and lit: "lit \<noteq> []" "\<not> is_space (hd lit)"
  shows "has_marker lit cls (trim s) \<longleftrightarrow> has_marker lit cls s"
proof
  assume "has_marker lit cls (trim s)"
  then obtain p ws c r where t: "trim s = p @ lit @ ws @ c # r"
    and ws: "\<forall>x\<in>set ws. is_space x" and c: "cls c"
    unfolding has_marker_def by blast
  obtain a b where "s = a @ trim s @ b" using trim_part by blast
  with t have "s = (a @ p) @ lit @ ws @ c # (r @ b)" by simp
  with ws c show "has_marker lit cls s" unfolding has_marker_def by blast
next
  assume "has_marker lit cls s"
  then obtain p ws c r where s: "s = p @ lit @ ws @ c # r"
    and ws: "\<forall>x\<in>set ws. is_space x" and c: "cls c"
    unfolding has_marker_def by blast
  let ?m = "lit @ ws @ [c]"
  have "trim (p @ ?m @ r) = dropWhile is_space p @ ?m @ rev (dropWhile is_space (rev r))"
    using lit ns[OF c] by (intro trim_keep) simp_all
  with s have "trim s = dropWhile is_space p @ lit @ ws @ c # rev (dropWhile is_space (rev r))"
    by simp
  with ws c show "has_marker lit cls (trim s)" unfolding has_marker_def by blast
qed

lemma has_marker_includes: "has_marker lit cls s \<Longrightarrow> includes_str s lit"
  unfolding has_marker_def includes_str_iff by (metis append.assoc)

lemma no_substring_no_marker:
  "\<not> (\<exists>p r. s = p @ lit @ r) \<Longrightarrow> \<not> has_marker lit cls s"
proof
  assume n: "\<not> (\<exists>p r. s = p @ lit @ r)" and "has_marker lit cls s"
  then obtain p ws c r where "s = p @ lit @ (ws @ c # r)"
    unfolding has_marker_def by auto
  with n show False by blast
qed

lemma has_marker_nonempty: "has_marker lit cls (first_line raw) \<Longrightarrow> raw \<noteq> []"
  by (auto simp: has_marker_def first_line_def)

lemma match_group_skip:
  "\<not> prefix lit (c # cs) \<Longrightarrow> match_group lit cls (c # cs) = match_group lit cls cs"
  by (simp add: capture_at_def)

lemma match_group_skip_digits:
  "\<forall>c\<in>set ds. is_digit c \<Longrightarrow>
   match_group ''CONFIDENCE_LABEL:'' cls (ds @ t) = match_group ''CONFIDENCE_LABEL:'' cls t"
proof (induction ds)
  case Nil
  show ?case by simp
next
  case (Cons d ds)
  then have "d \<noteq> CHR ''C''" by (auto simp: is_digit_def)
  then have "\<not> prefix ''CONFIDENCE_LABEL:'' (d # (ds @ t))" by simp
  then have "match_group ''CONFIDENCE_LABEL:'' cls (d # (ds @ t))
               = match_group ''CONFIDENCE_LABEL:'' cls (ds @ t)"
    by (rule match_group_skip)
  also have "\<dots> = match_group ''CONFIDENCE_LABEL:'' cls t"
    using Cons by simp
  finally show ?case by simp
qed

lemma strict_line_score:
  assumes "ds \<noteq> []" "\<forall>c\<in>set ds. is_digit c"
  shows "match_group ''CONFIDENCE_SCORE:'' is_digit (strict_line ds w) = Some ds"
proof -
  let ?t = "'' | CONFIDENCE_LABEL: '' @ w"
  have a: "\<forall>c\<in>set '' ''. is_space c" by (simp add: is_space_def)
  have b: "\<not> is_space (hd ds)" using assms by (rule hd_digit_not_space)
  have c: "?t = [] \<or> \<not> is_digit (hd ?t)" by (simp add: is_digit_def)
  have "capture_at ''CONFIDENCE_SCORE:'' is_digit (''CONFIDENCE_SCORE:'' @ '' '' @ ds @ ?t) = Some ds"
    using a assms(2) assms(1) b c by (rule capture_at_exact)
  then have "match_group ''CONFIDENCE_SCORE:'' is_digit (''CONFIDENCE_SCORE:'' @ '' '' @ ds @ ?t) = Some ds"
    by (rule capture_at_match_group)
  then show ?thesis by (simp add: strict_line_def)
qed

lemma strict_line_label:
  assumes "\<forall>c\<in>set ds. is_digit c" "w \<noteq> []" "\<forall>c\<in>set w. is_word c"
  shows "match_group ''CONFIDENCE_LABEL:'' is_word (strict_line ds w) = Some w"
proof -
  have a: "\<forall>c\<in>set '' ''. is_space c" by (simp add: is_space_def)
  have b: "\<not> is_space (hd w)" using assms(2,3) by (rule hd_word_not_space)
  have c: "([]::string) = [] \<or> \<not> is_word (hd [])" by simp
  have "capture_at ''CONFIDENCE_LABEL:'' is_word (''CONFIDENCE_LABEL:'' @ '' '' @ w @ []) = Some w"
    using a assms(3) assms(2) b c by (rule capture_at_exact)
  then have "match_group ''CONFIDENCE_LABEL:'' is_word (''CONFIDENCE_LABEL:'' @ '' '' @ w @ []) = Some w"
    by (rule capture_at_match_group)
  then have 1: "match_group ''CONFIDENCE_LABEL:'' is_word (''CONFIDENCE_LABEL: '' @ w) = Some w"
    by simp
  have 2: "match_group ''CONFIDENCE_LABEL:'' is_word ('' | CONFIDENCE_LABEL: '' @ w) = Some w"
    using 1 by (simp add: match_group_skip del: match_group.simps)
  have 3: "match_group ''CONFIDENCE_LABEL:'' is_word (ds @ '' | CONFIDENCE_LABEL: '' @ w) = Some w"
    using assms(1) 2 by (simp only: match_group_skip_digits)
  have "match_group ''CONFIDENCE_LABEL:'' is_word
          (''CONFIDENCE_SCORE: '' @ (ds @ '' | CONFIDENCE_LABEL: '' @ w))
        = match_group ''CONFIDENCE_LABEL:'' is_word (ds @ '' | CONFIDENCE_LABEL: '' @ w)"
    by (simp add: match_group_skip del: match_group.simps)
  with 3 show ?thesis by (simp add: strict_line_def)
qed

lemma trim_strict_line:
  assumes "w \<noteq> []" "\<forall>c\<in>set w. is_word c"
  shows "trim (strict_line ds w) = strict_line ds w"
proof -
  have "is_word (last w)" using assms by simp
  then have "\<not> is_space (last (strict_line ds w))"
    using assms(1) by (simp add: strict_line_def word_not_space)
  moreover have "\<not> is_space (hd (strict_line ds w))"
    by (simp add: strict_line_def is_space_def)
  ultimately show ?thesis by (intro trim_fixed) (simp_all add: strict_line_def)
qed

subsection \<open>The captured group\<close>

lemma follows_capture_at:
  assumes ns: "\<And>c. cls c \<Longrightarrow> \<not> is_space c" and "follows cls t"
  shows "capture_at lit cls (lit @ t) \<noteq> None"
proof -
  from assms(2) obtain ws c r where t: "t = ws @ c # r"
    and ws: "\<forall>x\<in>set ws. is_space x" and c: "cls c"
    unfolding follows_def by blast
  have "dropWhile is_space (ws @ c # r) = c # r"
    using ws ns[OF c] by (simp add: dropWhile_append)
  then show ?thesis using c t by (simp add: capture_at_def)
qed

lemma capture_at_shape:
  assumes "capture_at lit cls s = Some g"
  shows "\<exists>ws rest. s = lit @ ws @ g @ rest \<and> (\<forall>x\<in>set ws. is_space x)
           \<and> (rest = [] \<or> \<not> cls (hd rest))"
proof -
  from assms have p: "prefix lit s" by (auto simp: capture_at_def split: if_splits)
  then obtain t where s: "s = lit @ t" by (auto simp: prefix_def)
  let ?d = "dropWhile is_space t"
  from assms s have g: "g = takeWhile cls ?d"
    by (auto simp: capture_at_def Let_def split: if_splits)
  have "t = takeWhile is_space t @ ?d" by simp
  moreover have "?d = g @ dropWhile cls ?d" using g by simp
  ultimately have "s = lit @ takeWhile is_space t @ g @ dropWhile cls ?d"
    using s by metis
  moreover have "\<forall>x\<in>set (takeWhile is_space t). is_space x"
    by (auto dest: set_takeWhileD)
  moreover have "dropWhile cls ?d = [] \<or> \<not> cls (hd (dropWhile cls ?d))"
    using hd_dropWhile[of cls ?d] by blast
  ultimately show ?thesis by blast
qed

lemma match_group_captured:
  assumes ns: "\<And>c. cls c \<Longrightarrow> \<not> is_space c"
  shows "match_group lit cls s = Some g \<Longrightarrow> captured lit cls s g"
proof (induction s)
  case Nil
  then have c: "capture_at lit cls [] = Some g" by simp
  from capture_at_shape[OF c] capture_at_Some[OF c]
  show ?case unfolding captured_def
    by (metis append_Nil length_greater_0_conv less_nat_zero_code list.size(3))
next
  case (Cons a s)
  show ?case
  proof (cases "capture_at lit cls (a # s)")
    case (Some g')
    with Cons.prems have c: "capture_at lit cls (a # s) = Some g" by simp
    from capture_at_shape[OF c] obtain ws rest where
      "a # s = [] @ lit @ ws @ g @ rest" "\<forall>x\<in>set ws. is_space x" "rest = [] \<or> \<not> cls (hd rest)"
      by auto
    moreover have "g \<noteq> [] \<and> (\<forall>c\<in>set g. cls c)" using capture_at_Some[OF c] .
    moreover have "\<forall>p' t. a # s = p' @ lit @ t \<and> length p' < length ([]::string) \<longrightarrow> \<not> follows cls t"
      by simp
    ultimately show ?thesis unfolding captured_def by blast
  next
    case None
    with Cons.prems have "match_group lit cls s = Some g" by simp
    then have "captured lit cls s g" by (rule Cons.IH)
    then obtain p ws rest where s: "s = p @ lit @ ws @ g @ rest"
      and ws: "\<forall>x\<in>set ws. is_space x" and g: "g \<noteq> []" "\<forall>c\<in>set g. cls c"
      and rest: "rest = [] \<or> \<not> cls (hd rest)"
      and left: "\<forall>p' t. s = p' @ lit @ t \<and> length p' < length p \<longrightarrow> \<not> follows cls t"
      unfolding captured_def by blast
    have s': "a # s = (a # p) @ lit @ ws @ g @ rest" using s by simp
    have left': "\<forall>p' t. a # s = p' @ lit @ t \<and> length p' < length (a # p) \<longrightarrow> \<not> follows cls t"
    proof (intro allI impI)
      fix p' t
      assume h: "a # s = p' @ lit @ t \<and> length p' < length (a # p)"
      show "\<not> follows cls t"
      proof (cases p')
        case Nil
        with h have "a # s = lit @ t" by simp
        moreover have "follows cls t \<Longrightarrow> capture_at lit cls (lit @ t) \<noteq> None"
          using ns by (rule follows_capture_at)
        ultimately show ?thesis using None by auto
      next
        case (Cons b p'')
        with h have "s = p'' @ lit @ t \<and> length p'' < length p" by simp
        with left show ?thesis by blast
      qed
    qed
    from s' ws g rest left' show ?thesis unfolding captured_def by blast
  qed
qed

lemma captured_match_group:
  assumes ns: "\<And>c. cls c \<Longrightarrow> \<not> is_space c" and "captured lit cls s g"
  shows "match_group lit cls s = Some g"
proof -
  from assms(2) obtain p ws rest where s: "s = p @ lit @ ws @ g @ rest"
    and ws: "\<forall>x\<in>set ws. is_space x" and g: "g \<noteq> []" "\<forall>c\<in>set g. cls c"
    and rest: "rest = [] \<or> \<not> cls (hd rest)"
    and left: "\<forall>p' t. s = p' @ lit @ t \<and> length p' < length p \<longrightarrow> \<not> follows cls t"
    unfolding captured_def by blast
  have hg: "\<not> is_space (hd g)" using g ns by (simp add: hd_in_set)
  have base: "match_group lit cls (lit @ ws @ g @ rest) = Some g"
    using capture_at_exact[OF ws g(2) g(1) hg rest] by (rule capture_at_match_group)
  have "(\<forall>p' t. p @ lit @ ws @ g @ rest = p' @ lit @ t \<and> length p' < length p \<longrightarrow> \<not> follows cls t)
        \<Longrightarrow> match_group lit cls (p @ lit @ ws @ g @ rest) = Some g"
  proof (induction p)
    case Nil
    show ?case using base by simp
  next
    case (Cons a p)
    have "capture_at lit cls (a # p @ lit @ ws @ g @ rest) = None"
    proof (rule ccontr)
      assume "capture_at lit cls (a # p @ lit @ ws @ g @ rest) \<noteq> None"
      then obtain g' where c: "capture_at lit cls (a # p @ lit @ ws @ g @ rest) = Some g'"
        by auto
      from capture_at_shape[OF c] capture_at_Some[OF c] obtain ws' rest' where
        e: "a # p @ lit @ ws @ g @ rest = lit @ ws' @ g' @ rest'"
        and w': "\<forall>x\<in>set ws'. is_space x" and g': "g' \<noteq> []" "\<forall>c\<in>set g'. cls c"
        by blast
      obtain c' gt where "g' = c' # gt" using g' by (cases g') auto
      with g' w' have "follows cls (ws' @ g' @ rest')"
        unfolding follows_def by (metis append_Cons list.set_intros(1))
      moreover have "(a # p) @ lit @ ws @ g @ rest = [] @ lit @ (ws' @ g' @ rest')
                     \<and> length ([]::string) < length (a # p)" using e by simp
      ultimately show False using Cons.prems by blast
    qed
    moreover have "match_group lit cls (p @ lit @ ws @ g @ rest) = Some g"
    proof (rule Cons.IH, intro allI impI)
      fix p' t
      assume "p @ lit @ ws @ g @ rest = p' @ lit @ t \<and> length p' < length p"
      then have "(a # p) @ lit @ ws @ g @ rest = (a # p') @ lit @ t
                 \<and> length (a # p') < length (a # p)" by simp
      with Cons.prems show "\<not> follows cls t" by blast
    qed
    ultimately show ?case by simp
  qed
  with left s show ?thesis by simp
qed

lemma dropWhile_all: "\<forall>x\<in>set xs. P x \<Longrightarrow> dropWhile P xs = []"
  by (induction xs) auto

lemma takeWhile_all: "\<forall>x\<in>set xs. P x \<Longrightarrow> takeWhile P xs = xs"
  by (induction xs) auto

lemma match_group_spaces:
  assumes "lit \<noteq> []" "\<not> is_space (hd lit)"
  shows "\<forall>x\<in>set sp. is_space x \<Longrightarrow> match_group lit cls sp = None"
proof (induction sp)
  case Nil
  show ?case using assms(1) by (simp add: capture_at_def)
next
  case (Cons a sp)
  have "\<not> prefix lit (a # sp)" using assms Cons.prems by (cases lit) auto
  then show ?case using Cons by (simp add: capture_at_def)
qed

lemma match_group_dropWhile:
  assumes "lit \<noteq> []" "\<not> is_space (hd lit)"
  shows "match_group lit cls (dropWhile is_space s) = match_group lit cls s"
proof (induction s)
  case Nil
  show ?case by simp
next
  case (Cons a s)
  show ?case
  proof (cases "is_space a")
    case True
    then have "\<not> prefix lit (a # s)" using assms by (cases lit) auto
    then have "match_group lit cls (a # s) = match_group lit cls s"
      by (rule match_group_skip)
    with True Cons show ?thesis by simp
  next
    case False
    then show ?thesis by simp
  qed
qed

lemma capture_at_append_spaces:
  assumes sp: "\<forall>x\<in>set sp. is_space x" and lit: "\<forall>x\<in>set lit. \<not> is_space x"
    and ns: "\<And>c. cls c \<Longrightarrow> \<not> is_space c"
  shows "capture_at lit cls (t @ sp) = capture_at lit cls t"
proof (cases "prefix lit t")
  case True
  then obtain d where t: "t = lit @ d" by (auto simp: prefix_def)
  have "takeWhile cls (dropWhile is_space (d @ sp)) = takeWhile cls (dropWhile is_space d)"
  proof (cases "\<forall>x\<in>set d. is_space x")
    case True
    then have "dropWhile is_space d = []" by (rule dropWhile_all)
    moreover have "dropWhile is_space (d @ sp) = []"
      using True sp by (intro dropWhile_all) auto
    ultimately show ?thesis by (simp only:)
  next
    case False
    then have 1: "dropWhile is_space (d @ sp) = dropWhile is_space d @ sp"
      by (auto simp: dropWhile_append)
    have "takeWhile cls sp = []" using sp ns by (cases sp) auto
    then show ?thesis unfolding 1 by (auto simp: takeWhile_append takeWhile_all)
  qed
  with True t show ?thesis by (simp add: capture_at_def)
next
  case False
  have "\<not> prefix lit (t @ sp)"
  proof
    assume "prefix lit (t @ sp)"
    with False obtain us where us: "lit = t @ us" "prefix us sp"
      by (auto simp: prefix_append)
    have "us = []"
    proof (rule ccontr)
      assume "us \<noteq> []"
      then obtain x xs where "us = x # xs" by (cases us) auto
      with us have "x \<in> set lit" "x \<in> set sp" by (auto simp: prefix_def)
      with sp lit show False by blast
    qed
    with us False show False by simp
  qed
  with False show ?thesis by (simp add: capture_at_def)
qed

lemma match_group_append_spaces:
  assumes sp: "\<forall>x\<in>set sp. is_space x" and lit: "lit \<noteq> []" "\<forall>x\<in>set lit. \<not> is_space x"
    and ns: "\<And>c. cls c \<Longrightarrow> \<not> is_space c"
  shows "match_group lit cls (t @ sp) = match_group lit cls t"
proof (induction t)
  case Nil
  have "match_group lit cls sp = None"
    using lit sp by (intro match_group_spaces) (simp_all add: hd_in_set)
  then show ?case using lit(1) by (simp add: capture_at_def)
next
  case (Cons a t)
  have "capture_at lit cls ((a # t) @ sp) = capture_at lit cls (a # t)"
    using sp lit(2) ns by (rule capture_at_append_spaces)
  then show ?case using Cons by (simp split: option.splits)
qed

lemma match_group_trim:
  assumes lit: "lit \<noteq> []" "\<forall>x\<in>set lit. \<not> is_space x"
    and ns: "\<And>c. cls c \<Longrightarrow> \<not> is_space c"
  shows "match_group lit cls (trim s) = match_group lit cls s"
proof -
  let ?d = "dropWhile is_space s"
  have hd: "\<not> is_space (hd lit)" using lit by (simp add: hd_in_set)
  have "rev ?d = takeWhile is_space (rev ?d) @ dropWhile is_space (rev ?d)" by simp
  then have d: "?d = trim s @ rev (takeWhile is_space (rev ?d))"
    unfolding trim_def by (metis rev_append rev_rev_ident)
  have "\<forall>x\<in>set (rev (takeWhile is_space (rev ?d))). is_space x"
    by (auto dest: set_takeWhileD)
  then have "match_group lit cls (trim s @ rev (takeWhile is_space (rev ?d)))
               = match_group lit cls (trim s)"
    using lit ns by (rule match_group_append_spaces)
  with d have "match_group lit cls (trim s) = match_group lit cls ?d" by simp
  also have "\<dots> = match_group lit cls s" using lit(1) hd by (rule match_group_dropWhile)
  finally show ?thesis .
qed

section \<open>The confidence parse\<close>

lemma to_double_small: "n < 2 ^ 53 \<Longrightarrow> to_double n = Finite (int n)"
  by (simp add: to_double_def)

lemma to_double_range: "to_double n = Infinity \<or> (\<exists>m\<ge>0. to_double n = Finite m)"
  by (simp add: to_double_def Let_def)

lemma parse_confidence_commit:
  assumes "has_marker ''CONFIDENCE_SCORE:'' is_digit (first_line s)"
    and "has_marker ''CONFIDENCE_LABEL:'' is_word (first_line s)"
  shows "\<exists>ds w. match_group ''CONFIDENCE_SCORE:'' is_digit (trim (first_line s)) = Some ds
           \<and> match_group ''CONFIDENCE_LABEL:'' is_word (trim (first_line s)) = Some w
           \<and> parse_confidence s
               = (\<lparr>score = parseInt ds, label = w\<rparr>, trim (after_first_line s))"
proof -
  let ?t = "trim (first_line s)"
  have sp: "\<not> is_space (CHR ''C'')" by (simp add: is_space_def)
  have 1: "has_marker ''CONFIDENCE_SCORE:'' is_digit ?t"
    using assms(1) digit_not_space sp by (subst has_marker_trim) simp_all
  have 2: "has_marker ''CONFIDENCE_LABEL:'' is_word ?t"
    using assms(2) word_not_space sp by (subst has_marker_trim) simp_all
  obtain ds where ds: "match_group ''CONFIDENCE_SCORE:'' is_digit ?t = Some ds"
    using has_marker_match_group[OF digit_not_space 1] by blast
  obtain w where w: "match_group ''CONFIDENCE_LABEL:'' is_word ?t = Some w"
    using has_marker_match_group[OF word_not_space 2] by blast
  have inc: "includes_str ?t ''CONFIDENCE_SCORE:''" using 1 by (rule has_marker_includes)
  have "parse_confidence s = (\<lparr>score = parseInt ds, label = w\<rparr>, trim (after_first_line s))"
    unfolding parse_confidence_def Let_def hd_split_nl join_drop_split_nl
    using ds w inc by simp
  with ds w show ?thesis by blast
qed

lemma parse_confidence_default:
  assumes "\<not> has_marker ''CONFIDENCE_SCORE:'' is_digit (first_line s)
           \<or> \<not> has_marker ''CONFIDENCE_LABEL:'' is_word (first_line s)"
  shows "parse_confidence s = (default_confidence, s)"
proof -
  let ?t = "trim (first_line s)"
  have sp: "\<not> is_space (CHR ''C'')" by (simp add: is_space_def)
  have 1: "has_marker ''CONFIDENCE_SCORE:'' is_digit ?t
             \<longleftrightarrow> has_marker ''CONFIDENCE_SCORE:'' is_digit (first_line s)"
    using digit_not_space sp by (intro has_marker_trim) simp_all
  have 2: "has_marker ''CONFIDENCE_LABEL:'' is_word ?t
             \<longleftrightarrow> has_marker ''CONFIDENCE_LABEL:'' is_word (first_line s)"
    using word_not_space sp by (intro has_marker_trim) simp_all
  from assms 1 2 have
    "match_group ''CONFIDENCE_SCORE:'' is_digit ?t = None
     \<or> match_group ''CONFIDENCE_LABEL:'' is_word ?t = None"
    by (metis match_group_has_marker not_Some_eq)
  then show ?thesis
    unfolding parse_confidence_def Let_def hd_split_nl
    by (auto split: option.splits)
qed

lemma parse_confidence_strict:
  assumes "first_line s = strict_line ds w"
    and "ds \<noteq> []" "\<forall>c\<in>set ds. is_digit c" "w \<noteq> []" "\<forall>c\<in>set w. is_word c"
  shows "parse_confidence s = (\<lparr>score = parseInt ds, label = w\<rparr>, trim (after_first_line s))"
proof -
  have t: "trim (first_line s) = strict_line ds w"
    using assms by (simp add: trim_strict_line)
  have "prefix ''CONFIDENCE_SCORE:'' (strict_line ds w)" by (simp add: strict_line_def)
  then have inc: "includes_str (strict_line ds w) ''CONFIDENCE_SCORE:''"
    by (auto simp: includes_str_iff prefix_def intro: exI[of _ "[]"])
  show ?thesis
    unfolding parse_confidence_def Let_def hd_split_nl join_drop_split_nl t
    using inc strict_line_score[OF assms(2,3)] strict_line_label[OF assms(3,4,5)]
    by simp
qed

lemma parse_no_analysis: "parse_confidence no_analysis = (default_confidence, no_analysis)"
  by (simp add: parse_confidence_def no_analysis_def trim_def is_space_def)

lemma parse_confidence_shape:
  assumes "parse_confidence s = (conf, body)"
  shows "(score conf = Infinity \<or> (\<exists>n\<ge>0. score conf = Finite n))
         \<and> label conf \<noteq> [] \<and> list_all is_word (label conf)"
proof (cases "has_marker ''CONFIDENCE_SCORE:'' is_digit (first_line s)
              \<and> has_marker ''CONFIDENCE_LABEL:'' is_word (first_line s)")
  case True
  then obtain ds w where
    w: "match_group ''CONFIDENCE_LABEL:'' is_word (trim (first_line s)) = Some w"
    and p: "parse_confidence s = (\<lparr>score = parseInt ds, label = w\<rparr>, trim (after_first_line s))"
    using parse_confidence_commit[of s] by blast
  from p assms have c: "conf = \<lparr>score = parseInt ds, label = w\<rparr>" by simp
  have "w \<noteq> [] \<and> list_all is_word w"
    using match_group_Some[OF w] by (simp add: list_all_iff)
  moreover have "parseInt ds = Infinity \<or> (\<exists>n\<ge>0. parseInt ds = Finite n)"
    unfolding parseInt_def by (rule to_double_range)
  ultimately show ?thesis using c by simp
next
  case False
  then have "parse_confidence s = (default_confidence, s)"
    by (intro parse_confidence_default) blast
  with assms have "conf = default_confidence" by simp
  then show ?thesis by (simp add: default_confidence_def is_word_def)
qed

lemma fullText_of_Some: "raw \<noteq> [] \<Longrightarrow> response_text r = Some raw \<Longrightarrow> fullText_of r = raw"
  by (simp add: fullText_of_def truthy_def)

lemma fullText_of_empty:
  "response_text r = None \<or> response_text r = Some [] \<Longrightarrow> fullText_of r = no_analysis"
  by (auto simp: fullText_of_def truthy_def)

lemma parse_fullText_default:
  assumes "response_text r = Some raw"
    and "\<not> has_marker ''CONFIDENCE_SCORE:'' is_digit (first_line raw)
         \<or> \<not> has_marker ''CONFIDENCE_LABEL:'' is_word (first_line raw)"
  shows "parse_confidence (fullText_of r)
           = (default_confidence, if raw = [] then no_analysis else raw)"
proof (cases "raw = []")
  case True
  with assms(1) have "fullText_of r = no_analysis" by (simp add: fullText_of_empty)
  with True show ?thesis by (simp add: parse_no_analysis)
next
  case False
  with assms(1) have "fullText_of r = raw" by (simp add: fullText_of_Some)
  with False assms(2) show ?thesis by (simp add: parse_confidence_default)
qed

lemma analyzeSymptoms_Returns:
  assumes "newClient api = Returns u" "generateContent api = Returns r"
    and "parse_confidence (fullText_of r) = (conf, body)"
  shows "analyzeSymptoms api lang =
           Inr \<lparr>content = body, confidence = conf, language = lang,
                sources = extract_sources (groundingChunks r)\<rparr>"
  using assms by (simp add: analyzeSymptoms_def)

lemma analyzeSymptoms_Inl:
  "analyzeSymptoms api lang = Inl e \<Longrightarrow> e = Error analysis_failed \<or> newClient api = Throws e"
  by (cases "newClient api"; cases "generateContent api")
     (simp_all add: analyzeSymptoms_def split: prod.splits)

lemma analyzeSymptoms_Throws:
  "newClient api = Returns u \<Longrightarrow> generateContent api = Throws x \<Longrightarrow>
   analyzeSymptoms api lang = Inl (Error analysis_failed)"
  by (simp add: analyzeSymptoms_def)

lemma parse_confidence_captured:
  assumes "captured ''CONFIDENCE_SCORE:'' is_digit (first_line s) ds"
    and "captured ''CONFIDENCE_LABEL:'' is_word (first_line s) w"
  shows "parse_confidence s = (\<lparr>score = parseInt ds, label = w\<rparr>, trim (after_first_line s))"
proof -
  let ?t = "trim (first_line s)"
  have 1: "match_group ''CONFIDENCE_SCORE:'' is_digit (first_line s) = Some ds"
    using digit_not_space assms(1) by (rule captured_match_group)
  have 2: "match_group ''CONFIDENCE_LABEL:'' is_word (first_line s) = Some w"
    using word_not_space assms(2) by (rule captured_match_group)
  have 3: "match_group ''CONFIDENCE_SCORE:'' is_digit ?t = Some ds"
    using 1 digit_not_space by (subst match_group_trim) (simp_all add: is_space_def)
  have 4: "match_group ''CONFIDENCE_LABEL:'' is_word ?t = Some w"
    using 2 word_not_space by (subst match_group_trim) (simp_all add: is_space_def)
  have "has_marker ''CONFIDENCE_SCORE:'' is_digit ?t" using 3 by (rule match_group_has_marker)
  then have inc: "includes_str ?t ''CONFIDENCE_SCORE:''" by (rule has_marker_includes)
  show ?thesis
    unfolding parse_confidence_def Let_def hd_split_nl join_drop_split_nl
    using 3 4 inc by simp
qed

lemma has_marker_captured:
  assumes ns: "\<And>c. cls c \<Longrightarrow> \<not> is_space c" and "has_marker lit cls s"
  shows "\<exists>g. captured lit cls s g"
proof -
  from ns assms(2) obtain g where "match_group lit cls s = Some g"
    using has_marker_match_group by blast
  with ns have "captured lit cls s g" by (rule match_group_captured)
  then show ?thesis by blast
qed

lemma captured_nonempty: "captured lit cls (first_line raw) g \<Longrightarrow> raw \<noteq> []"
  by (auto simp: captured_def first_line_def)

text \<open>The definitions that a concrete call of \<open>analyzeSymptoms\<close> unfolds.\<close>

lemmas parse_eval =
  analyzeSymptoms_def fullText_of_def truthy_def parse_confidence_def trim_def
  capture_at_def is_space_def is_digit_def is_word_def parseInt_def decimal_def
  digit_value_def to_double_def Let_def bitlen.simps extract_sources_def
  default_confidence_def no_analysis_def first_line_def after_first_line_def
  strict_line_def

section \<open>Citation extraction\<close>

lemma truthy_the: "truthy x \<Longrightarrow> the x \<noteq> []"
  by (cases x) (auto simp: truthy_def)

lemma truthy_Some: "truthy (Some t) \<longleftrightarrow> t \<noteq> []"
  by (simp add: truthy_def)

lemma foldl_push_source:
  "foldl push_source acc cs = acc @ List.map_filter web_source cs"
  by (induction cs arbitrary: acc) (auto simp: push_source_def split: option.splits)

lemma foldl_push_map_source:
  "foldl push_map_source acc cs = acc @ List.map_filter map_source cs"
  by (induction cs arbitrary: acc)
     (auto simp: push_map_source_def split: option.splits)

lemma map_filter_append:
  "List.map_filter f (xs @ ys) = List.map_filter f xs @ List.map_filter f ys"
  by (simp add: List.map_filter_def)

lemma extract_sources_append:
  "extract_sources (Some (pre @ [c] @ post)) =
     extract_sources (Some pre) @ (case web_source c of None \<Rightarrow> [] | Some s \<Rightarrow> [s])
       @ extract_sources (Some post)"
  unfolding extract_sources_def option.case foldl_push_source
  by (simp add: map_filter_append split: option.splits)

lemma extract_map_sources_append:
  "extract_map_sources (Some (pre @ [c] @ post)) =
     extract_map_sources (Some pre) @ (case map_source c of None \<Rightarrow> [] | Some s \<Rightarrow> [s])
       @ extract_map_sources (Some post)"
  unfolding extract_map_sources_def option.case foldl_push_map_source
  by (simp add: map_filter_append split: option.splits)

lemma web_source_Some: "web_source c = Some s \<Longrightarrow> title s \<noteq> [] \<and> uri s \<noteq> []"
  by (auto simp: web_source_def web_ok_def truthy_the split: if_splits option.splits)

lemma map_source_Some: "map_source c = Some s \<Longrightarrow> title s \<noteq> [] \<and> uri s \<noteq> []"
  by (auto simp: map_source_def web_ok_def maps_ok_def truthy_the
           split: if_splits option.splits)

lemma extract_sources_complete:
  "list_all (\<lambda>s. title s \<noteq> [] \<and> uri s \<noteq> []) (extract_sources gc)"
proof (cases gc)
  case None
  then show ?thesis by (simp add: extract_sources_def)
next
  case (Some cs)
  have "list_all (\<lambda>s. title s \<noteq> [] \<and> uri s \<noteq> []) (List.map_filter web_source cs)"
    by (induction cs) (auto dest: web_source_Some split: option.splits)
  with Some show ?thesis by (simp add: extract_sources_def foldl_push_source)
qed

lemma extract_map_sources_complete:
  "list_all (\<lambda>s. title s \<noteq> [] \<and> uri s \<noteq> []) (extract_map_sources gc)"
proof (cases gc)
  case None
  then show ?thesis by (simp add: extract_map_sources_def)
next
  case (Some cs)
  have "list_all (\<lambda>s. title s \<noteq> [] \<and> uri s \<noteq> []) (List.map_filter map_source cs)"
    by (induction cs) (auto dest: map_source_Some split: option.splits)
  with Some show ?thesis by (simp add: extract_map_sources_def foldl_push_map_source)
qed

section \<open>The history of the App\<close>

lemma handleAnalyze_history_le:
  "length (history st) \<le> 10 \<Longrightarrow> length (history (handleAnalyze env st)) \<le> 10"
  by (simp add: handleAnalyze_def Let_def split: sum.splits outcome.splits)

lemma handleAnalyze_stored_bounded:
  "stored_bounded st \<Longrightarrow> stored_bounded (handleAnalyze env st)"
  by (simp add: handleAnalyze_def stored_bounded_def Let_def split: sum.splits outcome.splits)

lemma mount_bounded:
  "stored_bounded st \<Longrightarrow>
   length (history (mount (stored_history st))) \<le> 10
   \<and> stored_bounded (mount (stored_history st))"
  by (simp add: mount_def loadHistory_def initial_state_def stored_bounded_def
           split: option.splits)

lemma step_bounded:
  assumes "length (history st) \<le> 10" and "stored_bounded st"
  shows "length (history (step st ev)) \<le> 10 \<and> stored_bounded (step st ev)"
proof (cases ev)
  case (Analyze env)
  with assms show ?thesis
    by (simp add: handleAnalyze_history_le handleAnalyze_stored_bounded)
next
  case Reload
  with assms(2) show ?thesis by (simp add: mount_bounded)
qed (use assms in \<open>simp_all add: clearHistory_def stored_bounded_def\<close>)

lemma run_bounded:
  "length (history st) \<le> 10 \<Longrightarrow> stored_bounded st \<Longrightarrow>
   length (history (run st evs)) \<le> 10 \<and> stored_bounded (run st evs)"
  unfolding run_def
proof (induction evs arbitrary: st)
  case Nil
  then show ?case by simp
next
  case (Cons ev evs)
  have "length (history (step st ev)) \<le> 10 \<and> stored_bounded (step st ev)"
    using Cons.prems by (rule step_bounded)
  then show ?case using Cons.IH[of "step st ev"] by simp
qed

lemma handleAnalyze_succeeds:
  assumes "succeeds env st"
  shows "map item_id (history (handleAnalyze env st))
           = take 10 (uuid env # map item_id (history st))"
proof -
  from assms obtain data where
    "analyzeSymptoms (env_sdk env) (selectedLanguage st) = Inr data"
    by (cases "analyzeSymptoms (env_sdk env) (selectedLanguage st)")
       (auto simp: succeeds_def)
  with assms show ?thesis
    by (simp add: handleAnalyze_def succeeds_def Let_def newHistoryItem_def take_map
             split: outcome.splits)
qed

lemma take_append_take: "take n (xs @ take n ys) = take n (xs @ ys)"
  by (simp add: take_append)

lemma run_all_succeed:
  "all_succeed st evs \<Longrightarrow> length (history st) \<le> 10 \<Longrightarrow>
   map item_id (history (run st evs))
     = take 10 (rev (map uuid (analyses evs)) @ map item_id (history st))"
proof (induction st evs rule: all_succeed.induct)
  case (1 st)
  then show ?case by (simp add: run_def)
next
  case (2 st env evs)
  then have s: "succeeds env st" and a: "all_succeed (handleAnalyze env st) evs" by simp_all
  have l: "length (history (handleAnalyze env st)) \<le> 10"
    using "2.prems"(2) by (rule handleAnalyze_history_le)
  have "map item_id (history (run st (Analyze env # evs)))
          = map item_id (history (run (handleAnalyze env st) evs))"
    by (simp add: run_def)
  also have "\<dots> = take 10 (rev (map uuid (analyses evs))
                      @ map item_id (history (handleAnalyze env st)))"
    using a l by (rule "2.IH")
  also have "\<dots> = take 10 (rev (map uuid (analyses evs))
                      @ (uuid env # map item_id (history st)))"
    by (simp only: handleAnalyze_succeeds[OF s] take_append_take)
  finally show ?case by simp
next
  case (3 st evs)
  then show ?case by simp
qed (simp_all add: run_def)

lemma eleven_ids:
  assumes "length us = 11" and "distinct us"
  shows "length (take 10 (rev us)) = 10 \<and> hd (take 10 (rev us)) = last us
         \<and> hd us \<notin> set (take 10 (rev us))"
proof -
  from assms(1) obtain u rest where us: "us = u # rest" and r: "length rest = 10"
    by (cases us) auto
  have t: "take 10 (rev us) = rev rest" using us r by simp
  have "rest \<noteq> []" using r by auto
  then have "hd (rev rest) = last us" using us by (simp add: hd_rev)
  moreover have "u \<notin> set rest" using assms(2) us by simp
  ultimately show ?thesis using t r us by simp
qed

section \<open>The claims of the specification\<close>

subsection \<open>C1\<close>

text \<open>
  C1, as the code has it. When the first line of the raw response is exactly
  \<open>CONFIDENCE_SCORE: <int> | CONFIDENCE_LABEL: <word>\<close>, the label is the literal word, the
  content is the text after the first line, trimmed, and the score is the number value
  of the literal integer: the integer itself when it is below \<open>2^53\<close>, the nearest double
  otherwise.
\<close>

theorem strict_first_line_is_parsed:
  assumes "newClient api = Returns u" and "generateContent api = Returns r"
    and "response_text r = Some raw"
    and "first_line raw = strict_line ds w"
    and "ds \<noteq> []" and "\<forall>c\<in>set ds. is_digit c"
    and "w \<noteq> []" and "\<forall>c\<in>set w. is_word c"
  shows "analyzeSymptoms api lang =
           Inr \<lparr>content = trim (after_first_line raw),
                confidence = \<lparr>score = to_double (decimal ds), label = w\<rparr>,
                language = lang, sources = extract_sources (groundingChunks r)\<rparr>
         \<and> (decimal ds < 2 ^ 53 \<longrightarrow> to_double (decimal ds) = Finite (int (decimal ds)))"
proof -
  have "raw \<noteq> []" using assms(4) by (auto simp: first_line_def strict_line_def)
  with assms(3) have "fullText_of r = raw" by (simp add: fullText_of_Some)
  then have "parse_confidence (fullText_of r)
               = (\<lparr>score = parseInt ds, label = w\<rparr>, trim (after_first_line raw))"
    using assms(4-8) by (simp add: parse_confidence_strict)
  with assms(1,2) have "analyzeSymptoms api lang =
      Inr \<lparr>content = trim (after_first_line raw),
           confidence = \<lparr>score = parseInt ds, label = w\<rparr>,
           language = lang, sources = extract_sources (groundingChunks r)\<rparr>"
    by (rule analyzeSymptoms_Returns)
  then show ?thesis by (simp add: parseInt_def to_double_small)
qed

theorem strict_first_line_is_parsed_witness:
  "first_line ''CONFIDENCE_SCORE: 85 | CONFIDENCE_LABEL: High\<newline>**Summary**: ...''
     = strict_line ''85'' ''High''
   \<and> analyzeSymptoms
       \<lparr>newClient = Returns (),
        generateContent = Returns
          \<lparr>response_text =
             Some ''CONFIDENCE_SCORE: 85 | CONFIDENCE_LABEL: High\<newline>**Summary**: ...'',
           groundingChunks = None\<rparr>\<rparr>
       ''English''
     = Inr \<lparr>content = ''**Summary**: ...'',
            confidence = \<lparr>score = Finite 85, label = ''High''\<rparr>,
            language = ''English'', sources = []\<rparr>"
proof -
  let ?raw = "''CONFIDENCE_SCORE: 85 | CONFIDENCE_LABEL: High\<newline>**Summary**: ...''"
  let ?r = "\<lparr>response_text = Some ?raw, groundingChunks = None\<rparr>"
  let ?api = "\<lparr>newClient = Returns (), generateContent = Returns ?r\<rparr>"
  have l: "first_line ?raw = strict_line ''85'' ''High''"
    by (simp add: first_line_def strict_line_def)
  have d: "\<forall>c\<in>set ''85''. is_digit c" by (simp add: is_digit_def)
  have w: "\<forall>c\<in>set ''High''. is_word c" by (simp add: is_word_def)
  have t: "trim (after_first_line ?raw) = ''**Summary**: ...''"
    by (simp add: trim_def after_first_line_def is_space_def)
  have v: "decimal ''85'' = 85" by (simp add: decimal_def digit_value_def)
  have "analyzeSymptoms ?api ''English'' =
          Inr \<lparr>content = ''**Summary**: ...'',
               confidence = \<lparr>score = Finite 85, label = ''High''\<rparr>,
               language = ''English'', sources = []\<rparr>"
    using strict_first_line_is_parsed
            [of ?api "()" ?r ?raw "''85''" "''High''" "''English''", OF _ _ _ l _ d _ w]
    by (simp add: t v extract_sources_def)
  with l show ?thesis by blast
qed

text \<open>
  C1 as stated fails for an integer that no JavaScript number holds. The first line
  below has the strict form with the integer \<open>2^53 + 1\<close>; the score is \<open>2^53\<close>.
\<close>

theorem large_score_counterexample:
  "first_line ''CONFIDENCE_SCORE: 9007199254740993 | CONFIDENCE_LABEL: High\<newline>Body''
     = strict_line ''9007199254740993'' ''High''
   \<and> decimal ''9007199254740993'' = 9007199254740993
   \<and> Finite 9007199254740992 \<noteq> Finite (int (decimal ''9007199254740993''))
   \<and> analyzeSymptoms
       \<lparr>newClient = Returns (),
        generateContent = Returns
          \<lparr>response_text =
             Some ''CONFIDENCE_SCORE: 9007199254740993 | CONFIDENCE_LABEL: High\<newline>Body'',
           groundingChunks = None\<rparr>\<rparr>
       ''English''
     = Inr \<lparr>content = ''Body'',
            confidence = \<lparr>score = Finite 9007199254740992, label = ''High''\<rparr>,
            language = ''English'', sources = []\<rparr>"
  by (simp add: parse_eval)

subsection \<open>C2\<close>

text \<open>
  C2, as the code has it. The parse is lenient and an empty response is replaced: when
  the first line of the raw response lacks \<open>CONFIDENCE_SCORE:\<close> followed by optional white
  space and a digit, or lacks \<open>CONFIDENCE_LABEL:\<close> followed by optional white space and a
  word character, the confidence is exactly score 0 and label Low, and the content is
  the raw response unmodified when that is not empty, and the fixed message when it is.
\<close>

theorem unparsed_first_line_gives_default:
  assumes "newClient api = Returns u" and "generateContent api = Returns r"
    and "response_text r = Some raw"
    and "\<not> (has_marker ''CONFIDENCE_SCORE:'' is_digit (first_line raw)
            \<and> has_marker ''CONFIDENCE_LABEL:'' is_word (first_line raw))"
  shows "analyzeSymptoms api lang =
           Inr \<lparr>content =
                  (if raw = [] then ''Unable to generate analysis. Please try again.''
                   else raw),
                confidence = \<lparr>score = Finite 0, label = ''Low''\<rparr>,
                language = lang, sources = extract_sources (groundingChunks r)\<rparr>"
proof -
  have "parse_confidence (fullText_of r)
          = (default_confidence, if raw = [] then no_analysis else raw)"
    using assms(3,4) by (intro parse_fullText_default) simp_all
  with assms(1,2) have "analyzeSymptoms api lang =
      Inr \<lparr>content = (if raw = [] then no_analysis else raw),
           confidence = default_confidence, language = lang,
           sources = extract_sources (groundingChunks r)\<rparr>"
    by (rule analyzeSymptoms_Returns)
  then show ?thesis by (simp add: no_analysis_def default_confidence_def)
qed

theorem unparsed_first_line_gives_default_witness:
  "\<not> (has_marker ''CONFIDENCE_SCORE:'' is_digit
          (first_line ''CONFIDENCE_SCORE: high | CONFIDENCE_LABEL: High\<newline>Rest'')
        \<and> has_marker ''CONFIDENCE_LABEL:'' is_word
          (first_line ''CONFIDENCE_SCORE: high | CONFIDENCE_LABEL: High\<newline>Rest''))
   \<and> analyzeSymptoms
       \<lparr>newClient = Returns (),
        generateContent = Returns
          \<lparr>response_text = Some ''CONFIDENCE_SCORE: high | CONFIDENCE_LABEL: High\<newline>Rest'',
           groundingChunks = None\<rparr>\<rparr>
       ''English''
     = Inr \<lparr>content = ''CONFIDENCE_SCORE: high | CONFIDENCE_LABEL: High\<newline>Rest'',
            confidence = \<lparr>score = Finite 0, label = ''Low''\<rparr>,
            language = ''English'', sources = []\<rparr>"
proof -
  let ?raw = "''CONFIDENCE_SCORE: high | CONFIDENCE_LABEL: High\<newline>Rest''"
  let ?r = "\<lparr>response_text = Some ?raw, groundingChunks = None\<rparr>"
  let ?api = "\<lparr>newClient = Returns (), generateContent = Returns ?r\<rparr>"
  have "match_group ''CONFIDENCE_SCORE:'' is_digit (first_line ?raw) = None"
    by (simp add: first_line_def capture_at_def is_space_def is_digit_def)
  then have "\<not> has_marker ''CONFIDENCE_SCORE:'' is_digit (first_line ?raw)"
    using digit_not_space by (intro no_match_no_marker) simp_all
  then have h: "\<not> (has_marker ''CONFIDENCE_SCORE:'' is_digit (first_line ?raw)
                  \<and> has_marker ''CONFIDENCE_LABEL:'' is_word (first_line ?raw))"
    by simp
  have "analyzeSymptoms ?api ''English'' =
          Inr \<lparr>content = ?raw, confidence = \<lparr>score = Finite 0, label = ''Low''\<rparr>,
               language = ''English'', sources = []\<rparr>"
    using unparsed_first_line_gives_default[of ?api "()" ?r ?raw "''English''", OF _ _ _ h]
    by (simp add: extract_sources_def)
  with h show ?thesis by blast
qed

text \<open>
  C2 as stated fails twice. For the empty response the result is not the one with the
  empty content: the content is the fixed message. And a first line that does not begin with
  \<open>CONFIDENCE_SCORE: \<close>, so that it is not of the strict form, is parsed all the same:
  score 5, label High, first line removed.
\<close>

theorem nonmatching_first_line_counterexample:
  "analyzeSymptoms
     \<lparr>newClient = Returns (),
      generateContent = Returns \<lparr>response_text = Some [], groundingChunks = None\<rparr>\<rparr>
     ''English''
   \<noteq> Inr \<lparr>content = [],
          confidence = \<lparr>score = Finite 0, label = ''Low''\<rparr>,
          language = ''English'', sources = []\<rparr>
   \<and> \<not> prefix ''CONFIDENCE_SCORE: ''
         (first_line ''Note: CONFIDENCE_SCORE:5 CONFIDENCE_LABEL:High.\<newline>Body'')
   \<and> analyzeSymptoms
       \<lparr>newClient = Returns (),
        generateContent = Returns
          \<lparr>response_text = Some ''Note: CONFIDENCE_SCORE:5 CONFIDENCE_LABEL:High.\<newline>Body'',
           groundingChunks = None\<rparr>\<rparr>
       ''English''
     = Inr \<lparr>content = ''Body'',
            confidence = \<lparr>score = Finite 5, label = ''High''\<rparr>,
            language = ''English'', sources = []\<rparr>"
  by (simp add: parse_eval)

subsection \<open>C3\<close>

text \<open>
  C3. The history never holds more than 10 entries: whatever the user does (editing the
  form, submitting it with or without success, clearing the history, loading the page
  again), a history of at most 10 entries, the empty one at the start among them, stays
  at most 10 entries long, and so does the list in the storage that a later load reads.
  After 11 successful analyses in a row, starting from the empty history, the history
  holds 10 entries, the entry of the last analysis is first, and the entry of the first
  analysis is gone. Entries are told apart by their \<open>id\<close>, which \<open>crypto.randomUUID()\<close> makes
  distinct.
\<close>

theorem history_is_capped:
  "(length (history st) \<le> 10 \<and> stored_bounded st \<longrightarrow>
      length (history (run st evs)) \<le> 10 \<and> stored_bounded (run st evs))
   \<and> (history st = [] \<and> all_succeed st evs \<and> length (analyses evs) = 11
        \<and> distinct (map uuid (analyses evs)) \<longrightarrow>
        length (history (run st evs)) = 10
        \<and> item_id (hd (history (run st evs))) = uuid (last (analyses evs))
        \<and> uuid (hd (analyses evs)) \<notin> item_id ` set (history (run st evs)))"
proof (rule conjI; rule impI)
  assume "length (history st) \<le> 10 \<and> stored_bounded st"
  then show "length (history (run st evs)) \<le> 10 \<and> stored_bounded (run st evs)"
    by (simp add: run_bounded)
next
  assume h: "history st = [] \<and> all_succeed st evs \<and> length (analyses evs) = 11
        \<and> distinct (map uuid (analyses evs))"
  let ?us = "map uuid (analyses evs)"
  let ?h = "history (run st evs)"
  have ids: "map item_id ?h = take 10 (rev ?us)"
    using h run_all_succeed[of st evs] by simp
  have e: "length (take 10 (rev ?us)) = 10 \<and> hd (take 10 (rev ?us)) = last ?us
         \<and> hd ?us \<notin> set (take 10 (rev ?us))"
    using h eleven_ids[of ?us] by simp
  have ne: "analyses evs \<noteq> []" using h by auto
  have len: "length ?h = 10" using ids e by (metis length_map)
  then have "?h \<noteq> []" by auto
  then have "item_id (hd ?h) = hd (map item_id ?h)" by (simp add: hd_map)
  then have first: "item_id (hd ?h) = uuid (last (analyses evs))"
    using ids e ne by (simp add: last_map)
  have "hd ?us \<notin> set (map item_id ?h)" using ids e by simp
  then have gone: "uuid (hd (analyses evs)) \<notin> item_id ` set ?h"
    using ne by (simp add: hd_map)
  from len first gone show
    "length ?h = 10 \<and> item_id (hd ?h) = uuid (last (analyses evs))
     \<and> uuid (hd (analyses evs)) \<notin> item_id ` set ?h"
    by blast
qed

theorem history_is_capped_witness:
  "history example_state = []
   \<and> stored_bounded example_state
   \<and> all_succeed example_state example_run
   \<and> length (analyses example_run) = 11
   \<and> distinct (map uuid (analyses example_run))
   \<and> length (history (run example_state example_run)) = 10
   \<and> item_id (hd (history (run example_state example_run))) = ''k''
   \<and> ''a'' \<notin> item_id ` set (history (run example_state example_run))"
proof -
  have a: "history example_state = []" by (simp add: example_state_def)
  have b: "all_succeed example_state example_run"
    by (simp add: example_state_def example_run_def example_submission_def succeeds_def
          blank_form_def handleAnalyze_def newHistoryItem_def parse_eval)
  have c: "analyses example_run
             = map (\<lambda>i. \<lparr>env_sdk =
                \<lparr>newClient = Returns (),
                 generateContent = Returns \<lparr>response_text = Some ''Rest.'', groundingChunks = None\<rparr>\<rparr>,
              uuid = i, now = 0, setItem = Returns ()\<rparr>)
              [''a'', ''b'', ''c'', ''d'', ''e'', ''f'', ''g'', ''h'', ''i'', ''j'', ''k'']"
    by (simp add: example_run_def example_submission_def)
  have d: "length (analyses example_run) = 11" unfolding c by simp
  have e: "distinct (map uuid (analyses example_run))" unfolding c by simp
  have f: "uuid (last (analyses example_run)) = ''k''" unfolding c by simp
  have g: "uuid (hd (analyses example_run)) = ''a''" unfolding c by simp
  have s: "stored_bounded example_state"
    by (simp add: example_state_def stored_bounded_def)
  from history_is_capped[of example_state example_run] a b d e f g s
  show ?thesis by simp
qed

subsection \<open>C4\<close>

text \<open>
  C4, as the code has it. The parse applies no range check and no vocabulary check. The
  score of a result is a non-negative integer, or \<open>Infinity\<close> when the digits of the first
  line pass the range of a double; the label is a non-empty run of word characters.
\<close>

theorem confidence_is_not_validated:
  assumes "analyzeSymptoms api lang = Inr res"
  shows "(score (confidence res) = Infinity \<or> (\<exists>n\<ge>0. score (confidence res) = Finite n))
         \<and> label (confidence res) \<noteq> [] \<and> list_all is_word (label (confidence res))"
proof -
  from assms obtain r where r: "generateContent api = Returns r"
    and res: "res = \<lparr>content = snd (parse_confidence (fullText_of r)),
                     confidence = fst (parse_confidence (fullText_of r)),
                     language = lang, sources = extract_sources (groundingChunks r)\<rparr>"
    by (auto simp: analyzeSymptoms_def split: outcome.splits prod.splits)
  have "parse_confidence (fullText_of r) = (confidence res, content res)"
    using res by simp
  then show ?thesis by (rule parse_confidence_shape)
qed

theorem confidence_is_not_validated_witness:
  "analyzeSymptoms
     \<lparr>newClient = Returns (),
      generateContent = Returns
        \<lparr>response_text = Some ''CONFIDENCE_SCORE: 150 | CONFIDENCE_LABEL: Banana'',
         groundingChunks = None\<rparr>\<rparr>
     ''English''
   = Inr \<lparr>content = [], confidence = \<lparr>score = Finite 150, label = ''Banana''\<rparr>,
          language = ''English'', sources = []\<rparr>
   \<and> (score \<lparr>score = Finite 150, label = ''Banana''\<rparr> = Infinity
        \<or> (\<exists>n\<ge>0. score \<lparr>score = Finite 150, label = ''Banana''\<rparr> = Finite n))
   \<and> label \<lparr>score = Finite 150, label = ''Banana''\<rparr> \<noteq> []
   \<and> list_all is_word (label \<lparr>score = Finite 150, label = ''Banana''\<rparr>)"
proof -
  let ?api = "\<lparr>newClient = Returns (),
      generateContent = Returns
        \<lparr>response_text = Some ''CONFIDENCE_SCORE: 150 | CONFIDENCE_LABEL: Banana'',
         groundingChunks = None\<rparr>\<rparr>"
  let ?res = "\<lparr>content = [], confidence = \<lparr>score = Finite 150, label = ''Banana''\<rparr>,
      language = ''English'', sources = []\<rparr>"
  have a: "analyzeSymptoms ?api ''English'' = Inr ?res"
    by (simp add: parse_eval)
  from confidence_is_not_validated[OF a] a show ?thesis by simp
qed

text \<open>
  C4 as stated fails: a first line with the score 150 and the label Banana is taken as it
  is.
\<close>

theorem out_of_range_counterexample:
  "analyzeSymptoms
     \<lparr>newClient = Returns (),
      generateContent = Returns
        \<lparr>response_text = Some ''CONFIDENCE_SCORE: 150 | CONFIDENCE_LABEL: Banana'',
         groundingChunks = None\<rparr>\<rparr>
     ''English''
   = Inr \<lparr>content = [],
          confidence = \<lparr>score = Finite 150, label = ''Banana''\<rparr>,
          language = ''English'', sources = []\<rparr>
   \<and> \<not> (150 \<le> (100::int))
   \<and> ''Banana'' \<notin> set [''High'', ''Medium'', ''Low'']"
  by (simp add: parse_eval)

subsection \<open>C5\<close>

text \<open>
  C5. No extracted citation lacks a title or a URI, in either service. In
  \<open>findNearbyDoctors\<close> a chunk whose \<open>maps\<close> sub-object has a title and a URI yields one
  entry that carries the \<open>address\<close> of that sub-object, present or not; a chunk that falls
  back to its \<open>web\<close> sub-object yields one entry without an address; any other chunk yields
  nothing. In \<open>analyzeSymptoms\<close> a chunk yields one entry when its \<open>web\<close> sub-object has a
  title and a URI, and nothing otherwise. The entry of a chunk stands between the entries
  of the chunks before it and those of the chunks after it: the order is that of the
  chunks and nothing is removed as a duplicate. What the two services return as
  \<open>mapSources\<close> and as \<open>sources\<close> is the extraction from the chunks of the response.
\<close>

theorem citations_are_complete_and_ordered:
  "list_all (\<lambda>s. title s \<noteq> [] \<and> uri s \<noteq> []) (extract_sources gc)
   \<and> list_all (\<lambda>s. title s \<noteq> [] \<and> uri s \<noteq> []) (extract_map_sources gc)
   \<and> (maps c = Some (Maps (Some u) (Some t) a) \<and> u \<noteq> [] \<and> t \<noteq> [] \<longrightarrow>
        extract_map_sources (Some (pre @ [c] @ post)) =
          extract_map_sources (Some pre) @ [\<lparr>title = t, uri = u, address = a\<rparr>]
            @ extract_map_sources (Some post))
   \<and> (\<not> maps_ok c \<and> web c = Some (Web (Some u) (Some t)) \<and> u \<noteq> [] \<and> t \<noteq> [] \<longrightarrow>
        extract_map_sources (Some (pre @ [c] @ post)) =
          extract_map_sources (Some pre) @ [\<lparr>title = t, uri = u, address = None\<rparr>]
            @ extract_map_sources (Some post))
   \<and> (\<not> maps_ok c \<and> \<not> web_ok c \<longrightarrow>
        extract_map_sources (Some (pre @ [c] @ post)) =
          extract_map_sources (Some pre) @ extract_map_sources (Some post))
   \<and> (web c = Some (Web (Some u) (Some t)) \<and> u \<noteq> [] \<and> t \<noteq> [] \<longrightarrow>
        extract_sources (Some (pre @ [c] @ post)) =
          extract_sources (Some pre) @ [\<lparr>title = t, uri = u\<rparr>] @ extract_sources (Some post))
   \<and> (\<not> web_ok c \<longrightarrow>
        extract_sources (Some (pre @ [c] @ post)) =
          extract_sources (Some pre) @ extract_sources (Some post))
   \<and> (newClient api = Returns v \<and> generateContent api = Returns r \<longrightarrow>
        (\<exists>d. findNearbyDoctors f api = Inr d
             \<and> mapSources d = extract_map_sources (groundingChunks r)))
   \<and> (newClient api = Returns v \<and> generateContent api = Returns r \<longrightarrow>
        (\<exists>res. analyzeSymptoms api lang = Inr res
               \<and> sources res = extract_sources (groundingChunks r)))"
proof (intro conjI impI)
  show "list_all (\<lambda>s. title s \<noteq> [] \<and> uri s \<noteq> []) (extract_sources gc)"
    by (rule extract_sources_complete)
  show "list_all (\<lambda>s. title s \<noteq> [] \<and> uri s \<noteq> []) (extract_map_sources gc)"
    by (rule extract_map_sources_complete)
next
  assume "maps c = Some (Maps (Some u) (Some t) a) \<and> u \<noteq> [] \<and> t \<noteq> []"
  then have "map_source c = Some \<lparr>title = t, uri = u, address = a\<rparr>"
    by (simp add: map_source_def maps_ok_def truthy_Some)
  then show "extract_map_sources (Some (pre @ [c] @ post)) =
          extract_map_sources (Some pre) @ [\<lparr>title = t, uri = u, address = a\<rparr>]
            @ extract_map_sources (Some post)"
    by (simp only: extract_map_sources_append option.case)
next
  assume "\<not> maps_ok c \<and> web c = Some (Web (Some u) (Some t)) \<and> u \<noteq> [] \<and> t \<noteq> []"
  then have "map_source c = Some \<lparr>title = t, uri = u, address = None\<rparr>"
    by (simp add: map_source_def web_ok_def truthy_Some)
  then show "extract_map_sources (Some (pre @ [c] @ post)) =
          extract_map_sources (Some pre) @ [\<lparr>title = t, uri = u, address = None\<rparr>]
            @ extract_map_sources (Some post)"
    by (simp only: extract_map_sources_append option.case)
next
  assume "\<not> maps_ok c \<and> \<not> web_ok c"
  then have "map_source c = None" by (simp add: map_source_def)
  then show "extract_map_sources (Some (pre @ [c] @ post)) =
          extract_map_sources (Some pre) @ extract_map_sources (Some post)"
    by (simp only: extract_map_sources_append option.case append_Nil)
next
  assume "web c = Some (Web (Some u) (Some t)) \<and> u \<noteq> [] \<and> t \<noteq> []"
  then have "web_source c = Some \<lparr>title = t, uri = u\<rparr>"
    by (simp add: web_source_def web_ok_def truthy_Some)
  then show "extract_sources (Some (pre @ [c] @ post)) =
          extract_sources (Some pre) @ [\<lparr>title = t, uri = u\<rparr>] @ extract_sources (Some post)"
    by (simp only: extract_sources_append option.case)
next
  assume "\<not> web_ok c"
  then have "web_source c = None" by (simp add: web_source_def)
  then show "extract_sources (Some (pre @ [c] @ post)) =
          extract_sources (Some pre) @ extract_sources (Some post)"
    by (simp only: extract_sources_append option.case append_Nil)
next
  assume "newClient api = Returns v \<and> generateContent api = Returns r"
  then show "\<exists>d. findNearbyDoctors f api = Inr d
             \<and> mapSources d = extract_map_sources (groundingChunks r)"
    by (simp add: findNearbyDoctors_def)
next
  assume "newClient api = Returns v \<and> generateContent api = Returns r"
  then show "\<exists>res. analyzeSymptoms api lang = Inr res
               \<and> sources res = extract_sources (groundingChunks r)"
    by (simp add: analyzeSymptoms_def split: prod.splits)
qed

theorem citations_are_complete_and_ordered_witness:
  "extract_map_sources
     (Some [\<lparr>web = Some (Web (Some ''https://w.example'') (Some ''Web page'')), maps = None\<rparr>,
            \<lparr>web = None,
             maps = Some (Maps (Some ''https://m.example'') (Some ''Clinic'') (Some ''1 Main St''))\<rparr>,
            \<lparr>web = None,
             maps = Some (Maps (Some ''https://m.example'') (Some ''Clinic'') (Some ''1 Main St''))\<rparr>,
            \<lparr>web = Some (Web (Some ''https://x.example'') None), maps = None\<rparr>])
   = [\<lparr>title = ''Web page'', uri = ''https://w.example'', address = None\<rparr>,
      \<lparr>title = ''Clinic'', uri = ''https://m.example'', address = Some ''1 Main St''\<rparr>,
      \<lparr>title = ''Clinic'', uri = ''https://m.example'', address = Some ''1 Main St''\<rparr>]
   \<and> extract_sources
     (Some [\<lparr>web = Some (Web (Some ''https://w.example'') (Some ''Web page'')), maps = None\<rparr>,
            \<lparr>web = None,
             maps = Some (Maps (Some ''https://m.example'') (Some ''Clinic'') (Some ''1 Main St''))\<rparr>,
            \<lparr>web = Some (Web (Some ''https://w.example'') (Some ''Web page'')), maps = None\<rparr>])
   = [\<lparr>title = ''Web page'', uri = ''https://w.example''\<rparr>,
      \<lparr>title = ''Web page'', uri = ''https://w.example''\<rparr>]
   \<and> findNearbyDoctors Part001
       \<lparr>newClient = Returns (),
        generateContent = Returns
          \<lparr>response_text = Some ''Dr. A'',
           groundingChunks = Some
             [\<lparr>web = None,
               maps = Some (Maps (Some ''https://m.example'') (Some ''Clinic'') None)\<rparr>]\<rparr>\<rparr>
     = Inr \<lparr>doc_content = ''Dr. A'',
            mapSources = [\<lparr>title = ''Clinic'', uri = ''https://m.example'', address = None\<rparr>]\<rparr>"
proof -
  let ?w = "\<lparr>web = Some (Web (Some ''https://w.example'') (Some ''Web page'')), maps = None\<rparr>"
  let ?m = "\<lparr>web = None,
             maps = Some (Maps (Some ''https://m.example'') (Some ''Clinic'') (Some ''1 Main St''))\<rparr>"
  let ?x = "\<lparr>web = Some (Web (Some ''https://x.example'') None), maps = None\<rparr>"
  note ev = extract_map_sources_def extract_sources_def push_map_source_def push_source_def
    map_source_def web_source_def maps_ok_def web_ok_def truthy_def
  have 1: "extract_map_sources (Some ([?w] @ [?m] @ [?m, ?x])) =
             extract_map_sources (Some [?w])
               @ [\<lparr>title = ''Clinic'', uri = ''https://m.example'', address = Some ''1 Main St''\<rparr>]
               @ extract_map_sources (Some [?m, ?x])"
    using citations_are_complete_and_ordered
            [of None ?m "''https://m.example''" "''Clinic''" "Some ''1 Main St''" "[?w]" "[?m, ?x]"]
    by simp
  have 2: "extract_sources (Some ([?w] @ [?m] @ [?w])) =
             extract_sources (Some [?w]) @ extract_sources (Some [?w])"
    using citations_are_complete_and_ordered
            [of None ?m "''https://m.example''" "''Clinic''" "Some ''1 Main St''" "[?w]" "[?w]"]
    by (simp add: web_ok_def)
  have 3: "extract_map_sources (Some [?w])
             = [\<lparr>title = ''Web page'', uri = ''https://w.example'', address = None\<rparr>]"
    by (simp add: ev)
  have 4: "extract_map_sources (Some [?m, ?x])
             = [\<lparr>title = ''Clinic'', uri = ''https://m.example'', address = Some ''1 Main St''\<rparr>]"
    by (simp add: ev)
  have 5: "extract_sources (Some [?w])
             = [\<lparr>title = ''Web page'', uri = ''https://w.example''\<rparr>]"
    by (simp add: ev)
  have 6: "findNearbyDoctors Part001
       \<lparr>newClient = Returns (),
        generateContent = Returns
          \<lparr>response_text = Some ''Dr. A'',
           groundingChunks = Some
             [\<lparr>web = None,
               maps = Some (Maps (Some ''https://m.example'') (Some ''Clinic'') None)\<rparr>]\<rparr>\<rparr>
     = Inr \<lparr>doc_content = ''Dr. A'',
            mapSources = [\<lparr>title = ''Clinic'', uri = ''https://m.example'', address = None\<rparr>]\<rparr>"
    by (simp add: findNearbyDoctors_def ev)
  from 1 2 have "extract_map_sources (Some [?w, ?m, ?m, ?x])
      = [\<lparr>title = ''Web page'', uri = ''https://w.example'', address = None\<rparr>,
         \<lparr>title = ''Clinic'', uri = ''https://m.example'', address = Some ''1 Main St''\<rparr>,
         \<lparr>title = ''Clinic'', uri = ''https://m.example'', address = Some ''1 Main St''\<rparr>]
    \<and> extract_sources (Some [?w, ?m, ?w])
      = [\<lparr>title = ''Web page'', uri = ''https://w.example''\<rparr>,
         \<lparr>title = ''Web page'', uri = ''https://w.example''\<rparr>]"
    unfolding 3 4 5 by simp
  with 6 show ?thesis by blast
qed

subsection \<open>C6\<close>

text \<open>
  C6. Only the first line is inspected. When the first line of the raw response does not
  hold the substring \<open>CONFIDENCE_SCORE:\<close>, whatever the later lines hold, the confidence is
  the default and the body is the whole text that was parsed: the raw response, or the
  fixed message that stands in for an empty response. No line is stripped.
\<close>

theorem only_first_line_is_inspected:
  assumes "newClient api = Returns u" and "generateContent api = Returns r"
    and "response_text r = Some raw"
    and "\<not> (\<exists>p t. first_line raw = p @ ''CONFIDENCE_SCORE:'' @ t)"
  shows "analyzeSymptoms api lang =
           Inr \<lparr>content =
                  (if raw = [] then ''Unable to generate analysis. Please try again.''
                   else raw),
                confidence = \<lparr>score = Finite 0, label = ''Low''\<rparr>,
                language = lang, sources = extract_sources (groundingChunks r)\<rparr>"
proof -
  have "\<not> has_marker ''CONFIDENCE_SCORE:'' is_digit (first_line raw)"
    using assms(4) by (rule no_substring_no_marker)
  then have "parse_confidence (fullText_of r)
               = (default_confidence, if raw = [] then no_analysis else raw)"
    using assms(3) by (intro parse_fullText_default) simp_all
  with assms(1,2) have "analyzeSymptoms api lang =
      Inr \<lparr>content = (if raw = [] then no_analysis else raw),
           confidence = default_confidence, language = lang,
           sources = extract_sources (groundingChunks r)\<rparr>"
    by (rule analyzeSymptoms_Returns)
  then show ?thesis by (simp add: no_analysis_def default_confidence_def)
qed

theorem only_first_line_is_inspected_witness:
  "\<not> (\<exists>p t. first_line ''Summary\<newline>CONFIDENCE_SCORE: 85 | CONFIDENCE_LABEL: High''
              = p @ ''CONFIDENCE_SCORE:'' @ t)
   \<and> analyzeSymptoms
       \<lparr>newClient = Returns (),
        generateContent = Returns
          \<lparr>response_text = Some ''Summary\<newline>CONFIDENCE_SCORE: 85 | CONFIDENCE_LABEL: High'',
           groundingChunks = None\<rparr>\<rparr>
       ''English''
     = Inr \<lparr>content = ''Summary\<newline>CONFIDENCE_SCORE: 85 | CONFIDENCE_LABEL: High'',
            confidence = \<lparr>score = Finite 0, label = ''Low''\<rparr>,
            language = ''English'', sources = []\<rparr>"
proof -
  let ?raw = "''Summary\<newline>CONFIDENCE_SCORE: 85 | CONFIDENCE_LABEL: High''"
  let ?r = "\<lparr>response_text = Some ?raw, groundingChunks = None\<rparr>"
  let ?api = "\<lparr>newClient = Returns (), generateContent = Returns ?r\<rparr>"
  have "\<not> includes_str (first_line ?raw) ''CONFIDENCE_SCORE:''"
    by (simp add: first_line_def)
  then have h: "\<not> (\<exists>p t. first_line ?raw = p @ ''CONFIDENCE_SCORE:'' @ t)"
    unfolding includes_str_iff .
  have "analyzeSymptoms ?api ''English'' =
          Inr \<lparr>content = ?raw, confidence = \<lparr>score = Finite 0, label = ''Low''\<rparr>,
               language = ''English'', sources = []\<rparr>"
    using only_first_line_is_inspected[of ?api "()" ?r ?raw "''English''", OF _ _ _ h]
    by (simp add: extract_sources_def)
  with h show ?thesis by blast
qed

subsection \<open>C7\<close>

text \<open>
  C7, as the code has it. Every failure of the doctor lookup shows exactly one message,
  and there are more than four. A browser without geolocation gives ``Geolocation is not
  supported by your browser''; the error codes 1, 2 and 3 of the position request give
  the messages for permission denied, position unavailable and timed out, and any other
  code gives ``Unable to retrieve your location.''; a failed model request gives the
  service's ``Failed to locate nearby doctors'' message; an exception thrown while the
  client is constructed shows its own message, or ``Failed to find doctors nearby.'' when
  that is empty. A lookup that does not fail shows no message.
\<close>

theorem doctor_lookup_messages:
  "finder_error (handleFindDoctors f NoGeolocation api st)
     = Some ''Geolocation is not supported by your browser''
   \<and> finder_error (handleFindDoctors f (GeoFails code) api st)
     = Some (if code = 1 then ''Location permission denied. Please allow access.''
             else if code = 2 then ''Location unavailable. Please check your connection.''
             else if code = 3 then ''Location request timed out.''
             else ''Unable to retrieve your location.'')
   \<and> (newClient api = Returns u \<and> generateContent api = Throws x \<longrightarrow>
        finder_error (handleFindDoctors f (GeoPosition la lo) api st)
          = Some (case f of
                    Part000 \<Rightarrow>
                      ''Failed to locate nearby doctors. Please ensure location services are enabled in your browser.''
                  | Part001 \<Rightarrow>
                      ''Failed to locate nearby doctors. Please ensure location services are enabled.''))
   \<and> (newClient api = Throws e \<longrightarrow>
        finder_error (handleFindDoctors f (GeoPosition la lo) api st)
          = Some (if message e = [] then ''Failed to find doctors nearby.'' else message e))
   \<and> (newClient api = Returns u \<and> generateContent api = Returns r \<longrightarrow>
        finder_error (handleFindDoctors f (GeoPosition la lo) api st) = None)"
  by (simp add: handleFindDoctors_def findNearbyDoctors_def geo_message_def message_or_def
        not_supported_def permission_denied_def position_unavailable_def timed_out_def
        unable_to_retrieve_def find_failed_def locate_failed_def
      split: service_file.splits)

theorem doctor_lookup_messages_witness:
  "finder_error
     (handleFindDoctors Part001 (GeoPosition 52 13)
        \<lparr>newClient = Returns (), generateContent = Throws (Error ''fetch failed'')\<rparr>
        \<lparr>loading = False, finder_result = None, finder_error = None\<rparr>)
   = Some ''Failed to locate nearby doctors. Please ensure location services are enabled.''
   \<and> finder_error
     (handleFindDoctors Part001 (GeoPosition 52 13)
        \<lparr>newClient = Throws (Error ''An API Key must be set when running in a browser''),
         generateContent = Throws (Error ''unreachable'')\<rparr>
        \<lparr>loading = False, finder_result = None, finder_error = None\<rparr>)
   = Some ''An API Key must be set when running in a browser''
   \<and> finder_error
     (handleFindDoctors Part001 (GeoPosition 52 13)
        \<lparr>newClient = Returns (),
         generateContent = Returns \<lparr>response_text = Some ''Dr. A'', groundingChunks = None\<rparr>\<rparr>
        \<lparr>loading = False, finder_result = None, finder_error = None\<rparr>)
   = None"
proof -
  let ?st = "\<lparr>loading = False, finder_result = None, finder_error = None\<rparr>"
  let ?a1 = "\<lparr>newClient = Returns (), generateContent = Throws (Error ''fetch failed'')\<rparr>"
  let ?a2 = "\<lparr>newClient = Throws (Error ''An API Key must be set when running in a browser''),
         generateContent = Throws (Error ''unreachable'')\<rparr>"
  let ?r = "\<lparr>response_text = Some ''Dr. A'', groundingChunks = None\<rparr>"
  let ?a3 = "\<lparr>newClient = Returns (), generateContent = Returns ?r\<rparr>"
  have 1: "finder_error (handleFindDoctors Part001 (GeoPosition 52 13) ?a1 ?st)
             = Some ''Failed to locate nearby doctors. Please ensure location services are enabled.''"
    using doctor_lookup_messages[of Part001 ?a1 ?st _ "()" "Error ''fetch failed''" 52 13]
    by simp
  have 2: "finder_error (handleFindDoctors Part001 (GeoPosition 52 13) ?a2 ?st)
             = Some ''An API Key must be set when running in a browser''"
    using doctor_lookup_messages
            [of Part001 ?a2 ?st _ _ _ 52 13 "Error ''An API Key must be set when running in a browser''"]
    by simp
  have 3: "finder_error (handleFindDoctors Part001 (GeoPosition 52 13) ?a3 ?st) = None"
    using doctor_lookup_messages[of Part001 ?a3 ?st _ "()" _ 52 13 _ ?r]
    by simp
  from 1 2 3 show ?thesis by blast
qed

text \<open>
  C7 as stated fails: in a browser without geolocation the user reads a message that is
  none of the four, whichever message ``generic locate failure'' means.
\<close>

theorem no_geolocation_counterexample:
  "finder_error
     (handleFindDoctors Part001 NoGeolocation
        \<lparr>newClient = Returns (), generateContent = Throws (Error ''unreachable'')\<rparr>
        \<lparr>loading = False, finder_result = None, finder_error = None\<rparr>)
   = Some ''Geolocation is not supported by your browser''
   \<and> ''Geolocation is not supported by your browser''
       \<notin> set [''Location permission denied. Please allow access.'',
                ''Location unavailable. Please check your connection.'',
                ''Location request timed out.'',
                ''Unable to retrieve your location.'',
                ''Failed to locate nearby doctors. Please ensure location services are enabled.'',
                ''Failed to locate nearby doctors. Please ensure location services are enabled in your browser.'',
                ''Failed to find doctors nearby.'']"
  by (simp add: handleFindDoctors_def not_supported_def)

subsection \<open>C8\<close>

text \<open>
  C8, as the code has it. A failure of the \<open>generateContent\<close> request, or of reading its
  response, is rethrown with the one fixed message. The only other exception that leaves
  \<open>analyzeSymptoms\<close> is one thrown while the client is constructed, which happens before
  the \<open>try\<close> block: it leaves unchanged.
\<close>

theorem request_failure_is_rethrown:
  "(newClient api = Returns u \<and> generateContent api = Throws x \<longrightarrow>
      analyzeSymptoms api lang =
        Inl (Error ''Failed to analyze symptoms. Please check your connection or try a different image.''))
   \<and> (analyzeSymptoms api lang = Inl e \<longrightarrow>
        e = Error ''Failed to analyze symptoms. Please check your connection or try a different image.''
        \<or> newClient api = Throws e)"
  using analyzeSymptoms_Inl[of api lang e] analyzeSymptoms_Throws[of api u x lang]
  unfolding analysis_failed_def by blast

theorem request_failure_is_rethrown_witness:
  "analyzeSymptoms
     \<lparr>newClient = Returns (), generateContent = Throws (Error ''fetch failed'')\<rparr> ''English''
   = Inl (Error ''Failed to analyze symptoms. Please check your connection or try a different image.'')"
  using request_failure_is_rethrown
          [THEN conjunct1,
           of "\<lparr>newClient = Returns (), generateContent = Throws (Error ''fetch failed'')\<rparr>"
              "()" "Error ''fetch failed''" "''English''"]
  by simp

text \<open>
  C8 as stated fails: an exception thrown by \<open>new GoogleGenAI(...)\<close>, for instance for
  a missing API key, leaves \<open>analyzeSymptoms\<close> with its own message.
\<close>

theorem client_construction_counterexample:
  "analyzeSymptoms
     \<lparr>newClient = Throws (Error ''An API Key must be set when running in a browser''),
      generateContent = Throws (Error ''unreachable'')\<rparr> ''English''
   = Inl (Error ''An API Key must be set when running in a browser'')
   \<and> ''An API Key must be set when running in a browser''
       \<noteq> ''Failed to analyze symptoms. Please check your connection or try a different image.''"
  by (simp add: analyzeSymptoms_def)

subsection \<open>C9\<close>

text \<open>
  C9. When the response carries no text (\<open>text\<close> absent or the empty string), the fixed
  string is parsed in its place: the content is that string, never the empty string, and
  the confidence is the default, score 0 and label Low.
\<close>

theorem missing_text_is_replaced:
  assumes "newClient api = Returns u" and "generateContent api = Returns r"
    and "response_text r = None \<or> response_text r = Some []"
  shows "analyzeSymptoms api lang =
           Inr \<lparr>content = ''Unable to generate analysis. Please try again.'',
                confidence = \<lparr>score = Finite 0, label = ''Low''\<rparr>,
                language = lang, sources = extract_sources (groundingChunks r)\<rparr>"
proof -
  have "fullText_of r = no_analysis" using assms(3) by (rule fullText_of_empty)
  then have "parse_confidence (fullText_of r) = (default_confidence, no_analysis)"
    by (simp add: parse_no_analysis)
  with assms(1,2) have "analyzeSymptoms api lang =
      Inr \<lparr>content = no_analysis, confidence = default_confidence, language = lang,
           sources = extract_sources (groundingChunks r)\<rparr>"
    by (rule analyzeSymptoms_Returns)
  then show ?thesis by (simp add: no_analysis_def default_confidence_def)
qed

theorem missing_text_is_replaced_witness:
  "analyzeSymptoms
     \<lparr>newClient = Returns (),
      generateContent = Returns \<lparr>response_text = Some [], groundingChunks = None\<rparr>\<rparr>
     ''English''
   = Inr \<lparr>content = ''Unable to generate analysis. Please try again.'',
          confidence = \<lparr>score = Finite 0, label = ''Low''\<rparr>,
          language = ''English'', sources = []\<rparr>"
  using missing_text_is_replaced
          [of "\<lparr>newClient = Returns (),
                generateContent = Returns \<lparr>response_text = Some [], groundingChunks = None\<rparr>\<rparr>"
              "()" "\<lparr>response_text = Some [], groundingChunks = None\<rparr>" "''English''"]
  by (simp add: extract_sources_def)

subsection \<open>C10\<close>

text \<open>
  C10, as the code has it. The parse is lenient, not an exact match. The score that is
  committed is the number value of the digits that stand, after optional white space
  only, behind the first occurrence of \<open>CONFIDENCE_SCORE:\<close> in the first line that is
  followed by digits in this way; the label that is committed is the run of word
  characters that stands, after optional white space only, behind the first such
  occurrence of \<open>CONFIDENCE_LABEL:\<close>. Wherever in the line the two stand and whatever else
  the line holds, the whole first line is removed and what remains is trimmed at both
  ends. The number value is the integer itself below \<open>2^53\<close>. Every first line that holds
  the two markers, each followed by optional white space and a digit or a word
  character, has such a score and such a label.
\<close>

theorem lenient_first_line_is_parsed:
  assumes "newClient api = Returns u" and "generateContent api = Returns r"
    and "response_text r = Some raw"
  shows "(captured ''CONFIDENCE_SCORE:'' is_digit (first_line raw) ds
          \<and> captured ''CONFIDENCE_LABEL:'' is_word (first_line raw) w \<longrightarrow>
            analyzeSymptoms api lang =
              Inr \<lparr>content = trim (after_first_line raw),
                   confidence = \<lparr>score = to_double (decimal ds), label = w\<rparr>,
                   language = lang, sources = extract_sources (groundingChunks r)\<rparr>)
         \<and> (decimal ds < 2 ^ 53 \<longrightarrow> to_double (decimal ds) = Finite (int (decimal ds)))
         \<and> (has_marker ''CONFIDENCE_SCORE:'' is_digit (first_line raw)
            \<and> has_marker ''CONFIDENCE_LABEL:'' is_word (first_line raw) \<longrightarrow>
              (\<exists>ds' w'. captured ''CONFIDENCE_SCORE:'' is_digit (first_line raw) ds'
                        \<and> captured ''CONFIDENCE_LABEL:'' is_word (first_line raw) w'))"
proof (intro conjI impI)
  assume c: "captured ''CONFIDENCE_SCORE:'' is_digit (first_line raw) ds
          \<and> captured ''CONFIDENCE_LABEL:'' is_word (first_line raw) w"
  then have "raw \<noteq> []" by (auto dest: captured_nonempty)
  with assms(3) have "fullText_of r = raw" by (simp add: fullText_of_Some)
  moreover have "parse_confidence raw
      = (\<lparr>score = parseInt ds, label = w\<rparr>, trim (after_first_line raw))"
    using c by (intro parse_confidence_captured) simp_all
  ultimately have "parse_confidence (fullText_of r)
      = (\<lparr>score = to_double (decimal ds), label = w\<rparr>, trim (after_first_line raw))"
    by (simp add: parseInt_def)
  with assms(1,2) show "analyzeSymptoms api lang =
      Inr \<lparr>content = trim (after_first_line raw),
           confidence = \<lparr>score = to_double (decimal ds), label = w\<rparr>,
           language = lang, sources = extract_sources (groundingChunks r)\<rparr>"
    by (rule analyzeSymptoms_Returns)
next
  assume "decimal ds < 2 ^ 53"
  then show "to_double (decimal ds) = Finite (int (decimal ds))" by (rule to_double_small)
next
  assume h: "has_marker ''CONFIDENCE_SCORE:'' is_digit (first_line raw)
            \<and> has_marker ''CONFIDENCE_LABEL:'' is_word (first_line raw)"
  have "\<exists>g. captured ''CONFIDENCE_SCORE:'' is_digit (first_line raw) g"
    using digit_not_space h by (intro has_marker_captured) simp_all
  moreover have "\<exists>g. captured ''CONFIDENCE_LABEL:'' is_word (first_line raw) g"
    using word_not_space h by (intro has_marker_captured) simp_all
  ultimately show "\<exists>ds' w'. captured ''CONFIDENCE_SCORE:'' is_digit (first_line raw) ds'
                        \<and> captured ''CONFIDENCE_LABEL:'' is_word (first_line raw) w'"
    by blast
qed

theorem lenient_first_line_is_parsed_witness:
  "captured ''CONFIDENCE_SCORE:'' is_digit
     (first_line ''Note: CONFIDENCE_SCORE: n/a, CONFIDENCE_SCORE:5 CONFIDENCE_LABEL:High.\<newline>  Body  '')
     ''5''
   \<and> captured ''CONFIDENCE_LABEL:'' is_word
     (first_line ''Note: CONFIDENCE_SCORE: n/a, CONFIDENCE_SCORE:5 CONFIDENCE_LABEL:High.\<newline>  Body  '')
     ''High''
   \<and> analyzeSymptoms
        \<lparr>newClient = Returns (),
         generateContent = Returns
           \<lparr>response_text =
              Some ''Note: CONFIDENCE_SCORE: n/a, CONFIDENCE_SCORE:5 CONFIDENCE_LABEL:High.\<newline>  Body  '',
            groundingChunks = None\<rparr>\<rparr>
        ''English''
      = Inr \<lparr>content = ''Body'',
             confidence = \<lparr>score = Finite 5, label = ''High''\<rparr>,
             language = ''English'', sources = []\<rparr>"
proof -
  let ?raw = "''Note: CONFIDENCE_SCORE: n/a, CONFIDENCE_SCORE:5 CONFIDENCE_LABEL:High.\<newline>  Body  ''"
  let ?r = "\<lparr>response_text = Some ?raw, groundingChunks = None\<rparr>"
  let ?api = "\<lparr>newClient = Returns (), generateContent = Returns ?r\<rparr>"
  have "match_group ''CONFIDENCE_SCORE:'' is_digit (first_line ?raw) = Some ''5''"
    by (simp add: first_line_def capture_at_def is_space_def is_digit_def)
  with digit_not_space
  have a: "captured ''CONFIDENCE_SCORE:'' is_digit (first_line ?raw) ''5''"
    by (rule match_group_captured)
  have "match_group ''CONFIDENCE_LABEL:'' is_word (first_line ?raw) = Some ''High''"
    by (simp add: first_line_def capture_at_def is_space_def is_word_def)
  with word_not_space
  have b: "captured ''CONFIDENCE_LABEL:'' is_word (first_line ?raw) ''High''"
    by (rule match_group_captured)
  have t: "trim (after_first_line ?raw) = ''Body''"
    by (simp add: trim_def after_first_line_def is_space_def)
  have v: "decimal ''5'' = 5" by (simp add: decimal_def digit_value_def)
  have "analyzeSymptoms ?api ''English'' =
          Inr \<lparr>content = ''Body'',
               confidence = \<lparr>score = Finite 5, label = ''High''\<rparr>,
               language = ''English'', sources = []\<rparr>"
    using lenient_first_line_is_parsed
            [of ?api "()" ?r ?raw "''5''" "''High''" "''English''"] a b
    by (simp add: t v extract_sources_def)
  with a b show ?thesis by blast
qed

text \<open>
  C10 as stated fails when other text stands between the marker and the digits: the first
  line below holds \<open>CONFIDENCE_SCORE:\<close>, digits later in the line, and \<open>CONFIDENCE_LABEL:\<close>
  followed by a word, yet nothing is committed and no line is removed.
\<close>

theorem digits_after_other_text_counterexample:
  "first_line ''CONFIDENCE_SCORE: about 85 | CONFIDENCE_LABEL: High\<newline>Body''
     = ''CONFIDENCE_SCORE:'' @ '' about '' @ ''85'' @ '' | '' @ ''CONFIDENCE_LABEL:'' @ '' ''
         @ ''High''
   \<and> analyzeSymptoms
        \<lparr>newClient = Returns (),
         generateContent = Returns
           \<lparr>response_text =
              Some ''CONFIDENCE_SCORE: about 85 | CONFIDENCE_LABEL: High\<newline>Body'',
            groundingChunks = None\<rparr>\<rparr>
        ''English''
      = Inr \<lparr>content = ''CONFIDENCE_SCORE: about 85 | CONFIDENCE_LABEL: High\<newline>Body'',
             confidence = \<lparr>score = Finite 0, label = ''Low''\<rparr>,
             language = ''English'', sources = []\<rparr>"
  by (simp add: parse_eval)

end
